theory Spec2Isabelle
  imports Complex_Main
begin

section \<open>The icon generator \<^verbatim>\<open>src/icons/create_icons.py\<close>\<close>

text \<open>
  The script draws one glyph at four sizes through the Pillow imaging library and saves
  each raster as a PNG file. Python integers are \<^typ>\<open>int\<close>; \<^verbatim>\<open>//\<close> is floor
  division, which is \<open>div\<close> on \<^typ>\<open>int\<close>; \<^verbatim>\<open>i * size//6\<close> parses as
  \<^verbatim>\<open>(i * size)//6\<close> in Python and as \<open>(i * sz) div 6\<close> here. The parameter
  \<^verbatim>\<open>size\<close> is written \<open>sz\<close>, since \<open>size\<close> is a constant of HOL.
\<close>

subsection \<open>Data\<close>

type_synonym rgba = "int \<times> int \<times> int \<times> int"

text \<open>A raster: its colour mode, its (width, height), and the colour of each pixel.\<close>

record image =
  mode :: string
  dims :: "int \<times> int"
  px :: "int \<times> int \<Rightarrow> rgba"

text \<open>
  The exceptions the library, the file system and the terminal raise, each with its
  message; \<open>Other\<close> carries the class name of any exception not listed.
\<close>

datatype error =
    ValueError string
  | OSError string
  | OverflowError string
  | Other string string

text \<open>
  The two drawing calls the script makes on \<^verbatim>\<open>ImageDraw.Draw(img)\<close>:
  \<^verbatim>\<open>draw.ellipse(xy, fill=, outline=, width=)\<close> and
  \<^verbatim>\<open>draw.line(xy, fill=, width=)\<close>, each with its arguments as passed.
\<close>

datatype draw_op =
    Ellipse "int list" rgba rgba int
  | Line "int list" rgba int

text \<open>What the script changes outside itself: the files it writes and what it prints.\<close>

record world =
  files :: "string \<rightharpoonup> nat list"
  stdout :: "string list"

text \<open>
  Pillow is imported, not part of the repository, so its operations are parameters of
  the model: \<^verbatim>\<open>Image.new\<close>, the two drawing primitives, and \<^verbatim>\<open>img.save\<close>.
  Each returns its result or the exception it raises. In this first view a call is a
  function of its arguments; the view with state, in which a call may also read and
  change what lies outside the script, follows further down and agrees with this one.
\<close>

record pil =
  Image_new :: "string \<Rightarrow> int \<times> int \<Rightarrow> rgba \<Rightarrow> error + image"
  ellipse :: "int list \<Rightarrow> rgba \<Rightarrow> rgba \<Rightarrow> int \<Rightarrow> image \<Rightarrow> error + image"
  line :: "int list \<Rightarrow> rgba \<Rightarrow> int \<Rightarrow> image \<Rightarrow> error + image"
  save :: "image \<Rightarrow> string \<Rightarrow> string \<Rightarrow> (string \<rightharpoonup> nat list)
             \<Rightarrow> error + (string \<rightharpoonup> nat list)"

subsection \<open>Formatting an integer, as an f-string does\<close>

fun str_nat :: "nat \<Rightarrow> string" where
  "str_nat n =
     (if n < 10 then [''0123456789'' ! n]
      else str_nat (n div 10) @ [''0123456789'' ! (n mod 10)])"

definition str :: "int \<Rightarrow> string" where
  "str i = (if i < 0 then CHR ''-'' # str_nat (nat (- i)) else str_nat (nat i))"

subsection \<open>The drawing calls of \<^verbatim>\<open>create_icon\<close> (lines 14 to 36)\<close>

text \<open>Lines 16 to 18: the background circle.\<close>

definition background_circle :: "int \<Rightarrow> draw_op" where
  "background_circle sz =
     (let margin = sz div 8
      in Ellipse [margin, margin, sz - margin, sz - margin]
           (0, 124, 186, 255) (0, 90, 140, 255) 2)"

text \<open>Lines 21 to 29: the loop \<^verbatim>\<open>for i in range(3)\<close> over the horizontal lines.\<close>

definition horizontal_lines :: "int \<Rightarrow> draw_op list" where
  "horizontal_lines sz =
     (let center = sz div 2;
          line_width = max 1 (sz div 16)
      in map (\<lambda>i. let y = center - sz div 6 + i * sz div 6;
                      x1 = center - sz div 4;
                      x2 = center + sz div 4
                  in Line [x1, y, x2, y] (255, 255, 255, 255) line_width)
           [0, 1, 2])"

text \<open>Lines 31 to 36: the loop \<^verbatim>\<open>for i in range(2)\<close> over the vertical lines.\<close>

definition vertical_lines :: "int \<Rightarrow> draw_op list" where
  "vertical_lines sz =
     (let center = sz div 2;
          line_width = max 1 (sz div 16)
      in map (\<lambda>i. let x = center - sz div 8 + i * sz div 4;
                      y1 = center - sz div 6;
                      y2 = center + sz div 6
                  in Line [x, y1, x, y2] (255, 255, 255, 255) line_width)
           [0, 1])"

text \<open>The drawing calls in the order the script makes them.\<close>

definition drawing :: "int \<Rightarrow> draw_op list" where
  "drawing sz = background_circle sz # horizontal_lines sz @ vertical_lines sz"

subsection \<open>Running the calls\<close>

fun draw :: "pil \<Rightarrow> draw_op \<Rightarrow> image \<Rightarrow> error + image" where
  "draw L (Ellipse xy fill outline w) img = ellipse L xy fill outline w img"
| "draw L (Line xy fill w) img = line L xy fill w img"

text \<open>A \<^verbatim>\<open>for\<close> loop whose body may raise: the first exception ends the loop.\<close>

fun for_each :: "('a \<Rightarrow> 's \<Rightarrow> error + 's) \<Rightarrow> 'a list \<Rightarrow> 's \<Rightarrow> error + 's" where
  "for_each f [] s = Inr s"
| "for_each f (x # xs) s =
     (case f x s of Inl e \<Rightarrow> Inl e | Inr s' \<Rightarrow> for_each f xs s')"

text \<open>Lines 11 to 36: the canvas and everything drawn on it.\<close>

definition render :: "pil \<Rightarrow> int \<Rightarrow> error + image" where
  "render L sz =
     (case Image_new L ''RGBA'' (sz, sz) (0, 0, 0, 0) of
        Inl e \<Rightarrow> Inl e
      | Inr img \<Rightarrow> for_each (draw L) (drawing sz) img)"

text \<open>Lines 9 to 40: render, save as PNG, print the confirmation.\<close>

definition create_icon :: "pil \<Rightarrow> int \<Rightarrow> string \<Rightarrow> world \<Rightarrow> error + world" where
  "create_icon L sz filename w =
     (case render L sz of
        Inl e \<Rightarrow> Inl e
      | Inr img \<Rightarrow>
          (case save L img filename ''PNG'' (files w) of
             Inl e \<Rightarrow> Inl e
           | Inr fs \<Rightarrow>
               Inr \<lparr>files = fs,
                    stdout = stdout w @
                      [''Created '' @ filename @ '' ('' @ str sz @ ''x'' @ str sz @ '')'']\<rparr>))"

text \<open>Lines 42 to 48.\<close>

definition main :: "pil \<Rightarrow> world \<Rightarrow> error + world" where
  "main L w =
     for_each (\<lambda>sz. create_icon L sz (''icon'' @ str sz @ ''.png'')) [16, 32, 48, 128] w"

subsection \<open>Reading the arguments of the drawing calls\<close>

text \<open>The stroke width of each \<^verbatim>\<open>draw.line\<close> call, in call order.\<close>

fun stroke_widths :: "draw_op list \<Rightarrow> int list" where
  "stroke_widths [] = []"
| "stroke_widths (Line xy fill w # ops) = w # stroke_widths ops"
| "stroke_widths (Ellipse xy fill outline w # ops) = stroke_widths ops"

text \<open>The outline colour and outline width of each \<^verbatim>\<open>draw.ellipse\<close> call.\<close>

fun outlines :: "draw_op list \<Rightarrow> (rgba \<times> int) list" where
  "outlines [] = []"
| "outlines (Ellipse xy fill outline w # ops) = (outline, w) # outlines ops"
| "outlines (Line xy fill w # ops) = outlines ops"

subsection \<open>What the model asks of the imaging library\<close>

text \<open>
  The library's code is not in the repository. Where a property of the script depends on
  what a library call does to the pixels, the theorem states what it needs of the library
  as a premise; every such premise is met by the simple backend \<open>box_pil\<close> below.
\<close>

definition in_box :: "int \<times> int \<Rightarrow> int \<Rightarrow> int \<Rightarrow> int \<Rightarrow> int \<Rightarrow> bool" where
  "in_box p x0 y0 x1 y1 = (x0 \<le> fst p \<and> fst p \<le> x1 \<and> y0 \<le> snd p \<and> snd p \<le> y1)"

text \<open>The pixels of an image: columns 0 to width - 1, rows 0 to height - 1.\<close>

definition in_canvas :: "image \<Rightarrow> int \<times> int \<Rightarrow> bool" where
  "in_canvas img p = in_box p 0 0 (fst (dims img) - 1) (snd (dims img) - 1)"

definition alpha :: "rgba \<Rightarrow> int" where
  "alpha c = snd (snd (snd c))"

text \<open>
  A drawing call is well formed when it has four coordinates and, for an ellipse, the
  second corner of the bounding box is not left of or above the first.
\<close>

definition well_formed :: "draw_op \<Rightarrow> bool" where
  "well_formed op =
     (case op of
        Ellipse xy fill outline w \<Rightarrow>
          (case xy of [x0, y0, x1, y1] \<Rightarrow> x0 \<le> x1 \<and> y0 \<le> y1 | _ \<Rightarrow> False)
      | Line xy fill w \<Rightarrow>
          (case xy of [xa, ya, xb, yb] \<Rightarrow> True | _ \<Rightarrow> False))"

text \<open>Both end points of a line lie on a canvas of the given size.\<close>

definition endpoints_in_canvas :: "int \<Rightarrow> draw_op \<Rightarrow> bool" where
  "endpoints_in_canvas sz op =
     (case op of
        Ellipse xy fill outline w \<Rightarrow> True
      | Line xy fill w \<Rightarrow>
          (case xy of
             [xa, ya, xb, yb] \<Rightarrow>
               0 \<le> xa \<and> xa < sz \<and> 0 \<le> ya \<and> ya < sz \<and> 0 \<le> xb \<and> xb < sz \<and> 0 \<le> yb \<and> yb < sz
           | _ \<Rightarrow> False))"

text \<open>
  The pixels a drawing call may write: for an ellipse its bounding box, both corners
  included; for a line of width \<open>w\<close> the rectangle spanned by its end points, widened
  by \<open>w div 2\<close> on every side.
\<close>

definition frame :: "draw_op \<Rightarrow> int \<times> int \<Rightarrow> bool" where
  "frame op p =
     (case op of
        Ellipse xy fill outline w \<Rightarrow>
          (case xy of [x0, y0, x1, y1] \<Rightarrow> in_box p x0 y0 x1 y1 | _ \<Rightarrow> True)
      | Line xy fill w \<Rightarrow>
          (case xy of
             [xa, ya, xb, yb] \<Rightarrow>
               in_box p (min xa xb - w div 2) (min ya yb - w div 2)
                        (max xa xb + w div 2) (max ya yb + w div 2)
           | _ \<Rightarrow> True))"

text \<open>
  A pixel well inside an ellipse: in the bounding box, and inside the ellipse inscribed in
  the bounding box shrunk by the outline width and one more pixel on every side
  (coordinates doubled, so that the centre of the box is an integer point).
\<close>

definition deep_inside :: "int \<times> int \<Rightarrow> int \<Rightarrow> int \<Rightarrow> int \<Rightarrow> int \<Rightarrow> int \<Rightarrow> bool" where
  "deep_inside p x0 y0 x1 y1 w =
     (let a = x1 - x0 - 2 * w - 2;
          b = y1 - y0 - 2 * w - 2;
          dx = 2 * fst p - (x0 + x1);
          dy = 2 * snd p - (y0 + y1)
      in in_box p x0 y0 x1 y1 \<and> 0 < a \<and> 0 < b
         \<and> dx * dx * (b * b) + dy * dy * (a * a) \<le> a * a * (b * b))"

text \<open>\<^verbatim>\<open>Image.new\<close> with a positive width and height returns a canvas of that mode
  and size, every pixel of the given colour.\<close>

definition pil_new :: "pil \<Rightarrow> bool" where
  "pil_new L =
     (\<forall>m w h c. 0 < w \<and> 0 < h \<longrightarrow>
        (\<exists>img. Image_new L m (w, h) c = Inr img \<and> mode img = m \<and> dims img = (w, h)
           \<and> (\<forall>p. in_canvas img p \<longrightarrow> px img p = c)))"

text \<open>A well-formed drawing call raises nothing.\<close>

definition pil_total :: "pil \<Rightarrow> bool" where
  "pil_total L = (\<forall>op img. well_formed op \<longrightarrow> (\<exists>img'. draw L op img = Inr img'))"

text \<open>A drawing call keeps the mode and the size, and every pixel outside its frame.\<close>

definition pil_local :: "pil \<Rightarrow> bool" where
  "pil_local L =
     (\<forall>op img img'. draw L op img = Inr img' \<longrightarrow>
        mode img' = mode img \<and> dims img' = dims img
        \<and> (\<forall>p. \<not> frame op p \<longrightarrow> px img' p = px img p))"

text \<open>
  An ellipse call gives the fill colour to the pixels well inside it, and a line call of
  width at least 1 gives its colour to its first end point.
\<close>

definition pil_cover :: "pil \<Rightarrow> bool" where
  "pil_cover L =
     ((\<forall>x0 y0 x1 y1 fill outline w img img' p.
         ellipse L [x0, y0, x1, y1] fill outline w img = Inr img'
           \<and> in_canvas img p \<and> deep_inside p x0 y0 x1 y1 w
         \<longrightarrow> px img' p = fill)
      \<and> (\<forall>xa ya xb yb fill w img img'.
         line L [xa, ya, xb, yb] fill w img = Inr img' \<and> 1 \<le> w \<and> in_canvas img (xa, ya)
         \<longrightarrow> px img' (xa, ya) = fill))"

text \<open>
  \<^verbatim>\<open>img.save\<close>, when it succeeds, stores at the path the bytes that the encoder
  \<open>enc\<close> computes from the format and the image, and leaves the other files alone.
\<close>

definition pil_save :: "pil \<Rightarrow> (string \<Rightarrow> image \<Rightarrow> nat list) \<Rightarrow> bool" where
  "pil_save L enc =
     (\<forall>img fn fmt fs fs'. save L img fn fmt fs = Inr fs' \<longrightarrow> fs' = fs(fn \<mapsto> enc fmt img))"

text \<open>
  Weaker requirements, for one size at a time and for calls that stay on the canvas.
  Every coordinate of a call lies between 0 and the side of a square canvas, both
  included:
\<close>

definition within_canvas :: "int \<Rightarrow> draw_op \<Rightarrow> bool" where
  "within_canvas sz op =
     (case op of
        Ellipse xy fill outline w \<Rightarrow> list_all (\<lambda>c. 0 \<le> c \<and> c \<le> sz) xy
      | Line xy fill w \<Rightarrow> list_all (\<lambda>c. 0 \<le> c \<and> c \<le> sz) xy)"

definition on_canvas :: "image \<Rightarrow> draw_op \<Rightarrow> bool" where
  "on_canvas img op =
     (within_canvas (fst (dims img)) op \<and> within_canvas (snd (dims img)) op)"

text \<open>\<^verbatim>\<open>Image.new('RGBA', (size, size), (0, 0, 0, 0))\<close> returns the transparent
  canvas of that size.\<close>

definition new_gives_canvas :: "pil \<Rightarrow> int \<Rightarrow> bool" where
  "new_gives_canvas L sz =
     (\<exists>img. Image_new L ''RGBA'' (sz, sz) (0, 0, 0, 0) = Inr img
        \<and> mode img = ''RGBA'' \<and> dims img = (sz, sz)
        \<and> (\<forall>p. in_canvas img p \<longrightarrow> px img p = (0, 0, 0, 0)))"

text \<open>A well-formed drawing call whose coordinates stay on the canvas raises nothing.\<close>

definition draws_on_canvas :: "pil \<Rightarrow> bool" where
  "draws_on_canvas L =
     (\<forall>op img. well_formed op \<and> on_canvas img op \<longrightarrow> (\<exists>img'. draw L op img = Inr img'))"

text \<open>Saving to this path raises nothing.\<close>

definition writable :: "pil \<Rightarrow> string \<Rightarrow> bool" where
  "writable L filename = (\<forall>img fmt fs. \<exists>fs'. save L img filename fmt fs = Inr fs')"

subsection \<open>A backend that meets these requirements\<close>

text \<open>
  \<open>box_pil\<close> paints an ellipse as its bounding box (fill colour well inside, outline
  colour elsewhere in the box) and a line as its frame, and stores an image as the
  channel values of its pixels, row by row. It stands for no real library; it shows that
  the requirements above can be met together and gives the theorems a concrete instance.
\<close>

definition raw_bytes :: "string \<Rightarrow> image \<Rightarrow> nat list" where
  "raw_bytes fmt img =
     concat (map (\<lambda>y. concat (map (\<lambda>x. case px img (x, y) of
                                          (r, g, b, a) \<Rightarrow> [nat r, nat g, nat b, nat a])
                                  [0 ..< nat (fst (dims img))]))
               [0 ..< nat (snd (dims img))])"

definition box_pil :: pil where
  "box_pil =
     \<lparr>Image_new = (\<lambda>m d c.
        if fst d < 0 \<or> snd d < 0 then Inl (ValueError ''Width and height must be >= 0'')
        else Inr \<lparr>mode = m, dims = d, px = (\<lambda>p. c)\<rparr>),
      ellipse = (\<lambda>xy fill outline w img.
        case xy of
          [x0, y0, x1, y1] \<Rightarrow>
            if x1 < x0 \<or> y1 < y0 then Inl (ValueError ''x1 and y1 must not be less than x0 and y0'')
            else Inr (img\<lparr>px := (\<lambda>p. if in_box p x0 y0 x1 y1
                                      then (if deep_inside p x0 y0 x1 y1 w then fill else outline)
                                      else px img p)\<rparr>)
        | _ \<Rightarrow> Inl (ValueError ''wrong number of coordinates'')),
      line = (\<lambda>xy fill w img.
        case xy of
          [xa, ya, xb, yb] \<Rightarrow>
            Inr (img\<lparr>px := (\<lambda>p. if frame (Line xy fill w) p then fill else px img p)\<rparr>)
        | _ \<Rightarrow> Inl (ValueError ''wrong number of coordinates'')),
      save = (\<lambda>img fn fmt fs.
        if fn = [] then Inl (OSError ''No such file or directory'')
        else Inr (fs(fn \<mapsto> raw_bytes fmt img)))\<rparr>"

text \<open>
  The imaging library hands the size to C code as machine integers: \<open>c_int_pil\<close> is
  \<open>box_pil\<close> with an \<^verbatim>\<open>Image.new\<close> that raises \<^verbatim>\<open>OverflowError\<close> when a
  side does not fit a signed 32-bit integer.
\<close>

definition c_int_pil :: pil where
  "c_int_pil =
     box_pil\<lparr>Image_new := (\<lambda>m d c.
        if fst d < 0 \<or> snd d < 0 then Inl (ValueError ''Width and height must be >= 0'')
        else if 2147483648 \<le> fst d \<or> 2147483648 \<le> snd d
        then Inl (OverflowError ''Python int too large to convert to C int'')
        else Inr \<lparr>mode = m, dims = d, px = (\<lambda>p. c)\<rparr>)\<rparr>"

text \<open>\<open>readonly_pil bad\<close> is \<open>box_pil\<close> where saving to the path \<open>bad\<close> is refused.\<close>

definition readonly_pil :: "string \<Rightarrow> pil" where
  "readonly_pil bad =
     box_pil\<lparr>save := (\<lambda>img fn fmt fs.
        if fn = bad then Inl (OSError ''Permission denied'')
        else save box_pil img fn fmt fs)\<rparr>"

subsection \<open>The script in a world that has state\<close>

text \<open>
  The library, the file system and the terminal have state of their own. Here a call
  takes the state before it and returns its result, or the exception it raises, together
  with the state it leaves; the script has no \<^verbatim>\<open>try\<close>, so an exception ends the
  run in the state the raising call left. The state is a type parameter: the model fixes
  nothing about it.
\<close>

type_synonym ('a, 's) call = "'s \<Rightarrow> (error + 'a) \<times> 's"

record 's system =
  new_call :: "string \<Rightarrow> int \<times> int \<Rightarrow> rgba \<Rightarrow> (image, 's) call"
  ellipse_call :: "int list \<Rightarrow> rgba \<Rightarrow> rgba \<Rightarrow> int \<Rightarrow> image \<Rightarrow> (image, 's) call"
  line_call :: "int list \<Rightarrow> rgba \<Rightarrow> int \<Rightarrow> image \<Rightarrow> (image, 's) call"
  save_call :: "image \<Rightarrow> string \<Rightarrow> string \<Rightarrow> (unit, 's) call"
  print_call :: "string \<Rightarrow> (unit, 's) call"

text \<open>One statement after another: the second runs only if the first raised nothing.\<close>

definition then_call :: "('a, 's) call \<Rightarrow> ('a \<Rightarrow> ('b, 's) call) \<Rightarrow> ('b, 's) call" where
  "then_call m f s = (case m s of (Inl e, s') \<Rightarrow> (Inl e, s') | (Inr a, s') \<Rightarrow> f a s')"

fun draw_call :: "'s system \<Rightarrow> draw_op \<Rightarrow> image \<Rightarrow> (image, 's) call" where
  "draw_call S (Ellipse xy fill outline w) img = ellipse_call S xy fill outline w img"
| "draw_call S (Line xy fill w) img = line_call S xy fill w img"

fun for_each_call :: "('a \<Rightarrow> 'b \<Rightarrow> ('b, 's) call) \<Rightarrow> 'a list \<Rightarrow> 'b \<Rightarrow> ('b, 's) call" where
  "for_each_call f [] b s = (Inr b, s)"
| "for_each_call f (x # xs) b s =
     (case f x b s of (Inl e, s') \<Rightarrow> (Inl e, s') | (Inr b', s') \<Rightarrow> for_each_call f xs b' s')"

text \<open>Lines 11 to 36.\<close>

definition render_run :: "'s system \<Rightarrow> int \<Rightarrow> (image, 's) call" where
  "render_run S sz =
     then_call (new_call S ''RGBA'' (sz, sz) (0, 0, 0, 0))
       (for_each_call (draw_call S) (drawing sz))"

text \<open>Lines 9 to 40.\<close>

definition create_icon_run :: "'s system \<Rightarrow> int \<Rightarrow> string \<Rightarrow> (unit, 's) call" where
  "create_icon_run S sz filename =
     then_call (render_run S sz) (\<lambda>img.
     then_call (save_call S img filename ''PNG'') (\<lambda>u.
     print_call S (''Created '' @ filename @ '' ('' @ str sz @ ''x'' @ str sz @ '')'')))"

text \<open>Lines 42 to 48.\<close>

definition main_run :: "'s system \<Rightarrow> (unit, 's) call" where
  "main_run S =
     for_each_call (\<lambda>sz u. create_icon_run S sz (''icon'' @ str sz @ ''.png''))
       [16, 32, 48, 128] ()"

text \<open>
  A state that records what was called: the world of files and output, and the list of
  the calls made so far, each with its arguments, whether it raised or not.
\<close>

datatype api_call =
    New_call string "int \<times> int" rgba
  | Draw_call draw_op
  | Save_call string string
  | Print_call string

definition logging :: "pil \<Rightarrow> (world \<times> api_call list) system" where
  "logging L =
     \<lparr>new_call = (\<lambda>m d c (w, cs). (Image_new L m d c, (w, cs @ [New_call m d c]))),
      ellipse_call = (\<lambda>xy fill outline wd img (w, cs).
        (ellipse L xy fill outline wd img, (w, cs @ [Draw_call (Ellipse xy fill outline wd)]))),
      line_call = (\<lambda>xy fill wd img (w, cs).
        (line L xy fill wd img, (w, cs @ [Draw_call (Line xy fill wd)]))),
      save_call = (\<lambda>img fn fmt (w, cs).
        case save L img fn fmt (files w) of
          Inl e \<Rightarrow> (Inl e, (w, cs @ [Save_call fn fmt]))
        | Inr fs \<Rightarrow> (Inr (), (w\<lparr>files := fs\<rparr>, cs @ [Save_call fn fmt]))),
      print_call = (\<lambda>msg (w, cs).
        (Inr (), (w\<lparr>stdout := stdout w @ [msg]\<rparr>, cs @ [Print_call msg])))\<rparr>"

text \<open>What a run in the recording state amounts to, the record of calls left out.\<close>

definition outcome :: "(error + 'a) \<times> (world \<times> api_call list) \<Rightarrow> error + world" where
  "outcome r = (case r of (Inl e, s) \<Rightarrow> Inl e | (Inr a, (w, cs)) \<Rightarrow> Inr w)"

section \<open>The calls the script makes\<close>

lemma horizontal_lines_eq:
  "horizontal_lines sz =
     [Line [sz div 2 - sz div 4, sz div 2 - sz div 6, sz div 2 + sz div 4, sz div 2 - sz div 6]
        (255, 255, 255, 255) (max 1 (sz div 16)),
      Line [sz div 2 - sz div 4, sz div 2 - sz div 6 + sz div 6,
            sz div 2 + sz div 4, sz div 2 - sz div 6 + sz div 6]
        (255, 255, 255, 255) (max 1 (sz div 16)),
      Line [sz div 2 - sz div 4, sz div 2 - sz div 6 + 2 * sz div 6,
            sz div 2 + sz div 4, sz div 2 - sz div 6 + 2 * sz div 6]
        (255, 255, 255, 255) (max 1 (sz div 16))]"
  by (simp add: horizontal_lines_def Let_def)

lemma vertical_lines_eq:
  "vertical_lines sz =
     [Line [sz div 2 - sz div 8, sz div 2 - sz div 6, sz div 2 - sz div 8, sz div 2 + sz div 6]
        (255, 255, 255, 255) (max 1 (sz div 16)),
      Line [sz div 2 - sz div 8 + sz div 4, sz div 2 - sz div 6,
            sz div 2 - sz div 8 + sz div 4, sz div 2 + sz div 6]
        (255, 255, 255, 255) (max 1 (sz div 16))]"
  by (simp add: vertical_lines_def Let_def)

lemma background_circle_eq:
  "background_circle sz =
     Ellipse [sz div 8, sz div 8, sz - sz div 8, sz - sz div 8]
       (0, 124, 186, 255) (0, 90, 140, 255) 2"
  by (simp add: background_circle_def Let_def)

text \<open>
  C2, at the size 16 that \<^verbatim>\<open>main\<close> passes. The three horizontal segments lie at
  y = 6, 8 and 11: the gaps are 2 and 3, not both \<open>16 div 6 = 2\<close>, because the third
  offset is \<open>(2 * 16) div 6 = 5\<close> and not \<open>2 * (16 div 6) = 4\<close>. The two vertical
  segments run from y = 6 to y = 10 and so end one row above the bottom horizontal
  segment at y = 11.
\<close>

theorem lines_at_size_16:
  "horizontal_lines 16 =
     [Line [4, 6, 12, 6] (255, 255, 255, 255) 1,
      Line [4, 8, 12, 8] (255, 255, 255, 255) 1,
      Line [4, 11, 12, 11] (255, 255, 255, 255) 1]
   \<and> vertical_lines 16 =
     [Line [6, 6, 6, 10] (255, 255, 255, 255) 1,
      Line [10, 6, 10, 10] (255, 255, 255, 255) 1]"
  by (simp add: horizontal_lines_def vertical_lines_def)

text \<open>
  The sizes this concerns: the third horizontal segment lies at twice the gap below the
  first, and on the lower end of the vertical segments, exactly when the size leaves a
  remainder below 3 on division by 6 (as 32, 48 and 128 do, and 16 does not).
\<close>

lemma third_offset_even_iff:
  fixes sz :: int
  shows "(2 * sz div 6 = 2 * (sz div 6)) = (sz mod 6 < 3)"
  by presburger

lemma bottom_segment_meets_verticals_iff:
  fixes sz :: int
  shows "(sz div 2 - sz div 6 + 2 * sz div 6 = sz div 2 + sz div 6) = (sz mod 6 < 3)"
  using third_offset_even_iff [of sz] by linarith

text \<open>
  C3, as stated: for every positive size the margin of the ellipse's bounding box is
  exactly one-eighth of the size. At size 12 the box is [1, 1, 11, 11]: no margin
  \<open>m\<close> with \<open>m = 12 / 8\<close> describes it.
\<close>

theorem margin_exact_eighth_fails_at_12:
  "\<not> (\<exists>m. background_circle 12 =
            Ellipse [m, m, 12 - m, 12 - m] (0, 124, 186, 255) (0, 90, 140, 255) 2
          \<and> real_of_int m = 12 / 8)"
  by (auto simp add: background_circle_def)

text \<open>
  C3, amended: for every positive size the ellipse is drawn on the bounding box
  [margin, margin, size - margin, size - margin] where margin is one-eighth of the size
  rounded down to an integer; the margin is exactly one-eighth of the size precisely when
  8 divides the size.
\<close>

theorem margin_floor_eighth:
  assumes "0 < sz"
  shows "background_circle sz =
           Ellipse [sz div 8, sz div 8, sz - sz div 8, sz - sz div 8]
             (0, 124, 186, 255) (0, 90, 140, 255) 2
         \<and> hd (drawing sz) = background_circle sz
         \<and> sz div 8 = \<lfloor>real_of_int sz / 8\<rfloor>
         \<and> ((real_of_int (sz div 8) = real_of_int sz / 8) = (8 dvd sz))"
proof -
  have fl: "sz div 8 = \<lfloor>real_of_int sz / 8\<rfloor>"
    by (simp add: floor_divide_of_int_eq [of sz 8, simplified])
  have "(real_of_int (sz div 8) = real_of_int sz / 8) = (real_of_int (8 * (sz div 8)) = real_of_int sz)"
    by (simp add: field_simps)
  also have "\<dots> = (8 * (sz div 8) = sz)"
    by (simp only: of_int_eq_iff)
  also have "\<dots> = (8 dvd sz)"
    by presburger
  finally show ?thesis
    using fl by (simp add: background_circle_eq drawing_def)
qed

theorem margin_floor_eighth_witness:
  "background_circle 16 = Ellipse [2, 2, 14, 14] (0, 124, 186, 255) (0, 90, 140, 255) 2
   \<and> hd (drawing 16) = background_circle 16
   \<and> real_of_int (16 div 8) = real_of_int 16 / 8"
  using margin_floor_eighth [of 16] by simp

text \<open>
  C9: the script draws exactly five line segments, each with stroke width
  \<open>max 1 (size div 16)\<close>; that width is at least 1 for every size, and it is 1 at
  size 16.
\<close>

theorem stroke_width_at_least_one:
  "stroke_widths (drawing sz) = replicate 5 (max 1 (sz div 16))
   \<and> 1 \<le> max 1 (sz div 16)
   \<and> stroke_widths (drawing 16) = [1, 1, 1, 1, 1]"
  by (simp add: drawing_def background_circle_eq horizontal_lines_eq vertical_lines_eq
      numeral_eq_Suc)

text \<open>
  C10: the script makes one ellipse call, whose outline has the colour (0, 90, 140, 255)
  and the width 2 at every size, while the stroke width of the lines grows with the size
  (1 at size 16, 8 at size 128).
\<close>

theorem outline_width_constant:
  "outlines (drawing sz) = [((0, 90, 140, 255), 2)]
   \<and> stroke_widths (drawing 16) = [1, 1, 1, 1, 1]
   \<and> stroke_widths (drawing 128) = [8, 8, 8, 8, 8]"
  by (simp add: drawing_def background_circle_eq horizontal_lines_eq vertical_lines_eq)

section \<open>Iteration that may raise\<close>

lemma for_each_append:
  "for_each f (xs @ ys) s =
     (case for_each f xs s of Inl e \<Rightarrow> Inl e | Inr s' \<Rightarrow> for_each f ys s')"
  by (induction xs arbitrary: s) (auto split: sum.splits)

lemma for_each_total:
  "(\<And>x s. x \<in> set xs \<Longrightarrow> \<exists>s'. f x s = Inr s') \<Longrightarrow> \<exists>s'. for_each f xs s = Inr s'"
proof (induction xs arbitrary: s)
  case Nil
  then show ?case by simp
next
  case (Cons a xs)
  obtain s1 where s1: "f a s = Inr s1" using Cons.prems [of a s] by auto
  have "\<exists>s'. for_each f xs s1 = Inr s'"
    by (rule Cons.IH) (simp add: Cons.prems)
  with s1 show ?case by simp
qed

lemma draws_local:
  assumes L: "pil_local L"
  shows "for_each (draw L) ops img = Inr img' \<Longrightarrow>
     mode img' = mode img \<and> dims img' = dims img
     \<and> (\<forall>p. (\<forall>op \<in> set ops. \<not> frame op p) \<longrightarrow> px img' p = px img p)"
proof (induction ops arbitrary: img)
  case Nil
  then show ?case by simp
next
  case (Cons a ops)
  from Cons.prems obtain img1 where a: "draw L a img = Inr img1"
    and r: "for_each (draw L) ops img1 = Inr img'"
    by (auto split: sum.splits)
  from L a have 1: "mode img1 = mode img \<and> dims img1 = dims img
        \<and> (\<forall>p. \<not> frame a p \<longrightarrow> px img1 p = px img p)"
    unfolding pil_local_def by blast
  from Cons.IH [OF r] 1 show ?case by simp
qed


section \<open>The coordinates the script computes\<close>

lemma div_bounds:
  fixes a d :: int
  assumes "0 < d"
  shows "d * (a div d) \<le> a \<and> a < d * (a div d) + d"
proof -
  have "a = d * (a div d) + a mod d" by simp
  moreover have "0 \<le> a mod d" "a mod d < d" using assms by simp_all
  ultimately show ?thesis by linarith
qed

lemma geometry_core:
  fixes sz c q4 q6 q8 r :: int
  assumes "0 < sz"
    and "2 * c \<le> sz" "sz < 2 * c + 2"
    and "4 * q4 \<le> sz" "sz < 4 * q4 + 4"
    and "6 * q6 \<le> sz" "sz < 6 * q6 + 6"
    and "8 * q8 \<le> sz" "sz < 8 * q8 + 8"
    and "6 * r \<le> 2 * sz" "2 * sz < 6 * r + 6"
  shows "q8 \<le> sz - q8"
    and "0 \<le> c - q4" and "c + q4 < sz"
    and "0 \<le> c - q6" and "c - q6 < sz" and "c + q6 < sz"
    and "0 \<le> c - q6 + r" and "c - q6 + r < sz"
    and "0 \<le> c - q8" and "c - q8 < sz"
    and "0 \<le> c - q8 + q4" and "c - q8 + q4 < sz"
    and "0 \<le> c" and "c < sz"
    and "0 \<le> c + q4" and "0 \<le> c + q6" and "c - q4 < sz"
proof -
  have nn: "0 \<le> c" "0 \<le> q4" "0 \<le> q6" "0 \<le> q8" "0 \<le> r"
    using assms by linarith+
  note assms = assms nn
  show "q8 \<le> sz - q8" using assms by linarith
  show "0 \<le> c - q4" using assms by linarith
  show "c + q4 < sz" using assms by linarith
  show "0 \<le> c - q6" using assms by linarith
  show "c - q6 < sz" using assms by linarith
  show "c + q6 < sz" using assms by linarith
  show "0 \<le> c - q6 + r" using assms by linarith
  show "0 \<le> c - q8" using assms by linarith
  show "c - q8 < sz" using assms by linarith
  show "0 \<le> c - q8 + q4" using assms by linarith
  show "c - q8 + q4 < sz" using assms by linarith
  show "0 \<le> c" using assms by linarith
  show "c < sz" using assms by linarith
  show "0 \<le> c + q4" using assms by linarith
  show "0 \<le> c + q6" using assms by linarith
  show "c - q4 < sz" using assms by linarith
  show "c - q6 + r < sz"
  proof (cases "sz \<le> 2")
    case False
    then show ?thesis using assms by linarith
  next
    case True
    then have "r \<le> 0" using assms by linarith
    moreover have "c < sz" using assms by linarith
    ultimately show ?thesis using nn by linarith
  qed
qed


lemma geometry:
  fixes sz :: int
  assumes "0 < sz"
  shows "sz div 8 \<le> sz - sz div 8"
    and "0 \<le> sz div 2 - sz div 4" and "sz div 2 + sz div 4 < sz"
    and "0 \<le> sz div 2 - sz div 6" and "sz div 2 - sz div 6 < sz" and "sz div 2 + sz div 6 < sz"
    and "0 \<le> sz div 2 - sz div 6 + 2 * sz div 6" and "sz div 2 - sz div 6 + 2 * sz div 6 < sz"
    and "0 \<le> sz div 2 - sz div 8" and "sz div 2 - sz div 8 < sz"
    and "0 \<le> sz div 2 - sz div 8 + sz div 4" and "sz div 2 - sz div 8 + sz div 4 < sz"
    and "0 \<le> sz div 2" and "sz div 2 < sz"
    and "0 \<le> sz div 2 + sz div 4" and "0 \<le> sz div 2 + sz div 6"
    and "sz div 2 - sz div 4 < sz"
proof -
  have q2: "2 * (sz div 2) \<le> sz" "sz < 2 * (sz div 2) + 2"
    using div_bounds [of 2 sz] by simp_all
  have q4: "4 * (sz div 4) \<le> sz" "sz < 4 * (sz div 4) + 4"
    using div_bounds [of 4 sz] by simp_all
  have q6: "6 * (sz div 6) \<le> sz" "sz < 6 * (sz div 6) + 6"
    using div_bounds [of 6 sz] by simp_all
  have q8: "8 * (sz div 8) \<le> sz" "sz < 8 * (sz div 8) + 8"
    using div_bounds [of 8 sz] by simp_all
  have r: "6 * (2 * sz div 6) \<le> 2 * sz" "2 * sz < 6 * (2 * sz div 6) + 6"
    using div_bounds [of 6 "2 * sz"] by simp_all
  note g = geometry_core [of sz "sz div 2" "sz div 4" "sz div 6" "sz div 8" "2 * sz div 6",
      OF assms q2 q4 q6 q8 r]
  show "sz div 8 \<le> sz - sz div 8" by (rule g(1))
  show "0 \<le> sz div 2 - sz div 4" by (rule g(2))
  show "sz div 2 + sz div 4 < sz" by (rule g(3))
  show "0 \<le> sz div 2 - sz div 6" by (rule g(4))
  show "sz div 2 - sz div 6 < sz" by (rule g(5))
  show "sz div 2 + sz div 6 < sz" by (rule g(6))
  show "0 \<le> sz div 2 - sz div 6 + 2 * sz div 6" by (rule g(7))
  show "sz div 2 - sz div 6 + 2 * sz div 6 < sz" by (rule g(8))
  show "0 \<le> sz div 2 - sz div 8" by (rule g(9))
  show "sz div 2 - sz div 8 < sz" by (rule g(10))
  show "0 \<le> sz div 2 - sz div 8 + sz div 4" by (rule g(11))
  show "sz div 2 - sz div 8 + sz div 4 < sz" by (rule g(12))
  show "0 \<le> sz div 2" by (rule g(13))
  show "sz div 2 < sz" by (rule g(14))
  show "0 \<le> sz div 2 + sz div 4" by (rule g(15))
  show "0 \<le> sz div 2 + sz div 6" by (rule g(16))
  show "sz div 2 - sz div 4 < sz" by (rule g(17))
qed

lemma line_well_formed: "well_formed (Line [xa, ya, xb, yb] fill w)"
  by (simp add: well_formed_def)

lemma line_in_canvas:
  "0 \<le> xa \<Longrightarrow> xa < sz \<Longrightarrow> 0 \<le> ya \<Longrightarrow> ya < sz \<Longrightarrow> 0 \<le> xb \<Longrightarrow> xb < sz \<Longrightarrow> 0 \<le> yb \<Longrightarrow> yb < sz
   \<Longrightarrow> endpoints_in_canvas sz (Line [xa, ya, xb, yb] fill w)"
  by (simp add: endpoints_in_canvas_def)

lemma ellipse_well_formed:
  "x0 \<le> x1 \<Longrightarrow> y0 \<le> y1 \<Longrightarrow> well_formed (Ellipse [x0, y0, x1, y1] fill outline w)"
  by (simp add: well_formed_def)

lemma ellipse_in_canvas: "endpoints_in_canvas sz (Ellipse xy fill outline w)"
  by (simp add: endpoints_in_canvas_def)

lemma drawing_ok:
  assumes "0 < sz"
  shows "\<forall>op \<in> set (drawing sz). well_formed op \<and> endpoints_in_canvas sz op"
proof -
  note g = geometry [OF assms]
  have mid: "sz div 2 - sz div 6 + sz div 6 = sz div 2" by simp
  show ?thesis
    unfolding drawing_def background_circle_eq horizontal_lines_eq vertical_lines_eq
      list.set append.simps ball_simps mid
    by (intro conjI ellipse_well_formed ellipse_in_canvas line_well_formed line_in_canvas g TrueI)
qed

section \<open>The backend \<open>box_pil\<close> meets the requirements\<close>

lemma box_pil_new: "pil_new box_pil"
  by (simp add: pil_new_def box_pil_def)

lemma box_pil_total: "pil_total box_pil"
  unfolding pil_total_def
proof (intro allI impI)
  fix op img
  assume wf: "well_formed op"
  show "\<exists>img'. draw box_pil op img = Inr img'"
  proof (cases op)
    case (Ellipse xy fill outline w)
    with wf obtain x0 y0 x1 y1 where "xy = [x0, y0, x1, y1]" "x0 \<le> x1" "y0 \<le> y1"
      by (auto simp add: well_formed_def split: list.splits)
    with Ellipse show ?thesis by (simp add: box_pil_def)
  next
    case (Line xy fill w)
    with wf obtain xa ya xb yb where "xy = [xa, ya, xb, yb]"
      by (auto simp add: well_formed_def split: list.splits)
    with Line show ?thesis by (simp add: box_pil_def)
  qed
qed

lemma box_pil_local: "pil_local box_pil"
  unfolding pil_local_def
proof (intro allI impI)
  fix op img img'
  assume d: "draw box_pil op img = Inr img'"
  show "mode img' = mode img \<and> dims img' = dims img
        \<and> (\<forall>p. \<not> frame op p \<longrightarrow> px img' p = px img p)"
  proof (cases op)
    case (Ellipse xy fill outline w)
    with d show ?thesis
      by (auto simp add: box_pil_def frame_def split: list.splits if_splits)
  next
    case (Line xy fill w)
    with d show ?thesis
      by (auto simp add: box_pil_def frame_def split: list.splits if_splits)
  qed
qed

lemma box_pil_save: "pil_save box_pil raw_bytes"
  by (auto simp add: pil_save_def box_pil_def split: if_splits)

lemma box_pil_cover: "pil_cover box_pil"
  unfolding pil_cover_def
proof (intro conjI allI impI)
  fix x0 y0 x1 y1 w :: int and fill outline :: rgba and img img' p
  assume h: "ellipse box_pil [x0, y0, x1, y1] fill outline w img = Inr img'
     \<and> in_canvas img p \<and> deep_inside p x0 y0 x1 y1 w"
  then have "in_box p x0 y0 x1 y1" by (simp add: deep_inside_def Let_def)
  with h show "px img' p = fill"
    by (auto simp add: box_pil_def split: if_splits)
next
  fix xa ya xb yb w :: int and fill :: rgba and img img'
  assume h: "line box_pil [xa, ya, xb, yb] fill w img = Inr img' \<and> 1 \<le> w \<and> in_canvas img (xa, ya)"
  then have "0 \<le> w div 2" by simp
  then have "frame (Line [xa, ya, xb, yb] fill w) (xa, ya)"
    by (simp add: frame_def in_box_def) linarith
  with h show "px img' (xa, ya) = fill"
    by (auto simp add: box_pil_def)
qed

section \<open>The rendered image\<close>

lemma render_returns:
  assumes "0 < sz" and "pil_new L" and "pil_total L"
  shows "\<exists>img. render L sz = Inr img"
proof -
  have ok: "\<forall>op \<in> set (drawing sz). well_formed op \<and> endpoints_in_canvas sz op"
    by (rule drawing_ok [OF assms(1)])
  from assms(1,2) obtain img0 where new: "Image_new L ''RGBA'' (sz, sz) (0, 0, 0, 0) = Inr img0"
    unfolding pil_new_def by blast
  have "\<exists>img. for_each (draw L) (drawing sz) img0 = Inr img"
  proof (rule for_each_total)
    fix op img
    assume "op \<in> set (drawing sz)"
    with ok have "well_formed op" by blast
    with assms(3) show "\<exists>img'. draw L op img = Inr img'"
      unfolding pil_total_def by blast
  qed
  with new show ?thesis
    by (simp add: render_def)
qed

lemma render_ok:
  assumes "0 < sz" and "pil_new L" and "pil_total L" and "pil_local L"
  shows "\<exists>img0 img. Image_new L ''RGBA'' (sz, sz) (0, 0, 0, 0) = Inr img0
           \<and> dims img0 = (sz, sz)
           \<and> for_each (draw L) (drawing sz) img0 = Inr img
           \<and> render L sz = Inr img
           \<and> mode img = ''RGBA'' \<and> dims img = (sz, sz)
           \<and> (\<forall>p. in_box p 0 0 (sz - 1) (sz - 1) \<and> (\<forall>op \<in> set (drawing sz). \<not> frame op p)
                  \<longrightarrow> px img p = (0, 0, 0, 0))"
proof -
  from assms(1,2) obtain img0 where new: "Image_new L ''RGBA'' (sz, sz) (0, 0, 0, 0) = Inr img0"
    and m0: "mode img0 = ''RGBA''" and d0: "dims img0 = (sz, sz)"
    and p0: "\<forall>p. in_canvas img0 p \<longrightarrow> px img0 p = (0, 0, 0, 0)"
    unfolding pil_new_def by blast
  from render_returns [OF assms(1-3)] obtain img where r: "render L sz = Inr img"
    by blast
  with new have f: "for_each (draw L) (drawing sz) img0 = Inr img"
    by (simp add: render_def)
  note loc = draws_local [OF assms(4) f]
  have "\<forall>p. in_box p 0 0 (sz - 1) (sz - 1) \<and> (\<forall>op \<in> set (drawing sz). \<not> frame op p)
                  \<longrightarrow> px img p = (0, 0, 0, 0)"
    using loc p0 d0 by (simp add: in_canvas_def)
  with new f r m0 d0 loc show ?thesis by simp
qed

lemma render_pixels:
  assumes pos: "0 < sz" and new: "pil_new L" and tot: "pil_total L"
    and loc: "pil_local L" and cov: "pil_cover L"
  shows "\<exists>img. render L sz = Inr img \<and> dims img = (sz, sz)
           \<and> (\<forall>p. in_box p 0 0 (sz - 1) (sz - 1)
                    \<and> deep_inside p (sz div 8) (sz div 8) (sz - sz div 8) (sz - sz div 8) 2
                    \<and> (\<forall>op \<in> set (horizontal_lines sz @ vertical_lines sz). \<not> frame op p)
                  \<longrightarrow> px img p = (0, 124, 186, 255))
           \<and> px img (sz div 2 - sz div 8 + sz div 4, sz div 2 - sz div 6) = (255, 255, 255, 255)"
proof -
  define v0 where "v0 = Line [sz div 2 - sz div 8, sz div 2 - sz div 6,
                              sz div 2 - sz div 8, sz div 2 + sz div 6]
                          (255, 255, 255, 255) (max 1 (sz div 16))"
  define xy1 where "xy1 = [sz div 2 - sz div 8 + sz div 4, sz div 2 - sz div 6,
                            sz div 2 - sz div 8 + sz div 4, sz div 2 + sz div 6]"
  define v1 where "v1 = Line xy1 (255, 255, 255, 255) (max 1 (sz div 16))"
  have vl: "vertical_lines sz = [v0, v1]"
    by (simp add: vertical_lines_eq v0_def v1_def xy1_def)
  from render_ok [OF pos new tot loc] obtain img0 img
    where n: "Image_new L ''RGBA'' (sz, sz) (0, 0, 0, 0) = Inr img0"
      and f: "for_each (draw L) (drawing sz) img0 = Inr img"
      and d0: "dims img0 = (sz, sz)"
      and r: "render L sz = Inr img" and d: "dims img = (sz, sz)"
    by blast
  from f obtain img1 where c: "draw L (background_circle sz) img0 = Inr img1"
    and l: "for_each (draw L) (horizontal_lines sz @ vertical_lines sz) img1 = Inr img"
    by (auto simp add: drawing_def split: sum.splits)
  from loc c have d1: "dims img1 = dims img0"
    unfolding pil_local_def by blast
  have "horizontal_lines sz @ vertical_lines sz = (horizontal_lines sz @ [v0]) @ [v1]"
    by (simp add: vl)
  with l have "for_each (draw L) ((horizontal_lines sz @ [v0]) @ [v1]) img1 = Inr img"
    by simp
  then obtain img4 where l4: "for_each (draw L) (horizontal_lines sz @ [v0]) img1 = Inr img4"
    and l5: "draw L v1 img4 = Inr img"
    unfolding for_each_append [of "draw L" "horizontal_lines sz @ [v0]" "[v1]" img1]
    by (auto split: sum.splits)
  from draws_local [OF loc l4] have d4: "dims img4 = dims img1" by simp
  have fill: "px img p = (0, 124, 186, 255)"
    if p: "in_box p 0 0 (sz - 1) (sz - 1)"
      "deep_inside p (sz div 8) (sz div 8) (sz - sz div 8) (sz - sz div 8) 2"
      "\<forall>op \<in> set (horizontal_lines sz @ vertical_lines sz). \<not> frame op p" for p
  proof -
    from c have e: "ellipse L [sz div 8, sz div 8, sz - sz div 8, sz - sz div 8]
        (0, 124, 186, 255) (0, 90, 140, 255) 2 img0 = Inr img1"
      by (simp add: background_circle_eq)
    from p(1) d0 have "in_canvas img0 p" by (simp add: in_canvas_def)
    with cov e p(2) have "px img1 p = (0, 124, 186, 255)"
      unfolding pil_cover_def by blast
    moreover from draws_local [OF loc l] p(3) have "px img p = px img1 p" by blast
    ultimately show ?thesis by simp
  qed
  have white: "px img (sz div 2 - sz div 8 + sz div 4, sz div 2 - sz div 6) = (255, 255, 255, 255)"
  proof -
    from l5 have e: "line L [sz div 2 - sz div 8 + sz div 4, sz div 2 - sz div 6,
        sz div 2 - sz div 8 + sz div 4, sz div 2 + sz div 6]
        (255, 255, 255, 255) (max 1 (sz div 16)) img4 = Inr img"
      by (simp add: v1_def xy1_def)
    note g = geometry [OF pos]
    have "in_box (sz div 2 - sz div 8 + sz div 4, sz div 2 - sz div 6) 0 0 (sz - 1) (sz - 1)"
      using g(11) g(12) g(4) g(5) by (simp add: in_box_def)
    with d4 d1 d0 have "in_canvas img4 (sz div 2 - sz div 8 + sz div 4, sz div 2 - sz div 6)"
      by (simp add: in_canvas_def)
    moreover have "1 \<le> max 1 (sz div 16)" by simp
    ultimately show ?thesis
      using cov e unfolding pil_cover_def by blast
  qed
  from r d fill white show ?thesis by blast
qed

lemma frames_inside_margin:
  assumes "sz \<in> {16, 32, 48, 128}"
  shows "\<forall>op \<in> set (drawing sz). \<forall>p. frame op p \<longrightarrow>
           in_box p (sz div 8) (sz div 8) (sz - sz div 8) (sz - sz div 8)"
proof -
  from assms consider "sz = 16" | "sz = 32" | "sz = 48" | "sz = 128" by auto
  then show ?thesis
  proof cases
    case 1
    show ?thesis unfolding 1
      by (simp add: drawing_def background_circle_def horizontal_lines_def vertical_lines_def
          frame_def in_box_def)
  next
    case 2
    show ?thesis unfolding 2
      by (simp add: drawing_def background_circle_def horizontal_lines_def vertical_lines_def
          frame_def in_box_def)
  next
    case 3
    show ?thesis unfolding 3
      by (simp add: drawing_def background_circle_def horizontal_lines_def vertical_lines_def
          frame_def in_box_def)
  next
    case 4
    show ?thesis unfolding 4
      by (simp add: drawing_def background_circle_def horizontal_lines_def vertical_lines_def
          frame_def in_box_def)
  qed
qed

lemma fill_pixel_clear:
  assumes "sz \<in> {16, 32, 48, 128}"
  shows "in_box (sz div 2, sz div 2 - sz div 6 div 2) 0 0 (sz - 1) (sz - 1)
         \<and> deep_inside (sz div 2, sz div 2 - sz div 6 div 2)
             (sz div 8) (sz div 8) (sz - sz div 8) (sz - sz div 8) 2
         \<and> (\<forall>op \<in> set (horizontal_lines sz @ vertical_lines sz).
               \<not> frame op (sz div 2, sz div 2 - sz div 6 div 2))"
proof -
  from assms consider "sz = 16" | "sz = 32" | "sz = 48" | "sz = 128" by auto
  then show ?thesis
  proof cases
    case 1
    show ?thesis unfolding 1
      by (simp add: horizontal_lines_def vertical_lines_def frame_def in_box_def deep_inside_def)
  next
    case 2
    show ?thesis unfolding 2
      by (simp add: horizontal_lines_def vertical_lines_def frame_def in_box_def deep_inside_def)
  next
    case 3
    show ?thesis unfolding 3
      by (simp add: horizontal_lines_def vertical_lines_def frame_def in_box_def deep_inside_def)
  next
    case 4
    show ?thesis unfolding 4
      by (simp add: horizontal_lines_def vertical_lines_def frame_def in_box_def deep_inside_def)
  qed
qed

lemma four_sizes_positive: "sz \<in> {16, 32, 48, 128} \<Longrightarrow> (0::int) < sz"
  by auto


section \<open>What \<^verbatim>\<open>main\<close> runs\<close>

lemma for_each_map:
  "for_each f (map g xs) s = for_each (\<lambda>x. f (g x)) xs s"
  by (induction xs arbitrary: s) (auto split: sum.splits)

lemma icon_names:
  "map (\<lambda>sz. (sz, ''icon'' @ str sz @ ''.png'')) [16, 32, 48, 128] =
     [(16, ''icon16.png''), (32, ''icon32.png''), (48, ''icon48.png''), (128, ''icon128.png'')]"
  by (simp add: str_def)

lemma main_unfolded:
  "main L w =
     for_each (\<lambda>(sz, filename). create_icon L sz filename)
       [(16, ''icon16.png''), (32, ''icon32.png''), (48, ''icon48.png''), (128, ''icon128.png'')] w"
  unfolding main_def icon_names [symmetric]
  by (simp only: for_each_map split_conv)


section \<open>Pixels of the four icons\<close>

text \<open>
  C5: for each size in {16, 32, 48, 128} the four corner pixels (0, 0), (0, size - 1),
  (size - 1, 0) and (size - 1, size - 1) of the rendered image are (0, 0, 0, 0), so their
  alpha is 0: the canvas starts as (0, 0, 0, 0) everywhere, and the frame of every
  drawing call (the bounding box of the ellipse, the widened rectangle of each of the five
  lines) lies inside the square from margin to size - margin, which holds no corner. The
  library is asked to create the canvas in the requested colour, to raise nothing on
  well-formed calls, and to write no pixel outside the frame of a call.
\<close>

theorem corners_transparent:
  assumes "pil_new L" and "pil_total L" and "pil_local L" and "sz \<in> {16, 32, 48, 128}"
  shows "\<exists>img. render L sz = Inr img \<and> dims img = (sz, sz)
           \<and> (\<forall>p \<in> {(0, 0), (0, sz - 1), (sz - 1, 0), (sz - 1, sz - 1)}.
                 px img p = (0, 0, 0, 0) \<and> alpha (px img p) = 0)
           \<and> (\<forall>op \<in> set (drawing sz). \<forall>p. frame op p \<longrightarrow>
                 in_box p (sz div 8) (sz div 8) (sz - sz div 8) (sz - sz div 8))"
proof -
  note inside = frames_inside_margin [OF assms(4)]
  from render_ok [OF four_sizes_positive [OF assms(4)] assms(1-3)] obtain img
    where r: "render L sz = Inr img" and d: "dims img = (sz, sz)"
      and clear: "\<forall>p. in_box p 0 0 (sz - 1) (sz - 1) \<and> (\<forall>op \<in> set (drawing sz). \<not> frame op p)
                  \<longrightarrow> px img p = (0, 0, 0, 0)"
    by blast
  have "px img p = (0, 0, 0, 0) \<and> alpha (px img p) = 0"
    if p: "p \<in> {(0, 0), (0, sz - 1), (sz - 1, 0), (sz - 1, sz - 1)}" for p
  proof -
    from p assms(4) have c: "in_box p 0 0 (sz - 1) (sz - 1)"
      by (auto simp add: in_box_def)
    from p assms(4) have "\<not> in_box p (sz div 8) (sz div 8) (sz - sz div 8) (sz - sz div 8)"
      by (auto simp add: in_box_def)
    with inside have "\<forall>op \<in> set (drawing sz). \<not> frame op p" by blast
    with c clear have "px img p = (0, 0, 0, 0)" by blast
    then show ?thesis by (simp add: alpha_def)
  qed
  with r d inside show ?thesis by blast
qed

theorem corners_transparent_witness:
  "\<exists>img. render box_pil 16 = Inr img \<and> dims img = (16, 16)
     \<and> px img (0, 0) = (0, 0, 0, 0) \<and> px img (0, 15) = (0, 0, 0, 0)
     \<and> px img (15, 0) = (0, 0, 0, 0) \<and> px img (15, 15) = (0, 0, 0, 0)"
proof -
  have "(16::int) \<in> {16, 32, 48, 128}" by simp
  from corners_transparent [OF box_pil_new box_pil_total box_pil_local this]
  obtain img where r: "render box_pil 16 = Inr img" and d: "dims img = (16, 16)"
    and c: "\<forall>p \<in> {(0, 0), (0, 16 - 1), (16 - 1, 0), (16 - 1, 16 - 1)}.
              px img p = (0, 0, 0, 0) \<and> alpha (px img p) = 0"
    by blast
  from c have "px img (0, 0) = (0, 0, 0, 0)" "px img (0, 15) = (0, 0, 0, 0)"
    "px img (15, 0) = (0, 0, 0, 0)" "px img (15, 15) = (0, 0, 0, 0)"
    by simp_all
  with r d show ?thesis by blast
qed


text \<open>
  C6: for each size in {16, 32, 48, 128} the rendered image has a pixel of the fill
  colour (0, 124, 186, 255) and a pixel of the colour (255, 255, 255, 255). The first is
  the pixel (size div 2, size div 2 - (size div 6) div 2), well inside the ellipse and in
  the frame of no line; the second is the first end point of the last line drawn. Beyond
  the requirements of C5, the library is asked to give the fill colour to the pixels well
  inside an ellipse and the line colour to the first end point of a line.
\<close>

theorem fill_and_white_pixels:
  assumes "pil_new L" and "pil_total L" and "pil_local L" and "pil_cover L"
    and "sz \<in> {16, 32, 48, 128}"
  shows "\<exists>img. render L sz = Inr img
           \<and> (\<exists>p. in_canvas img p \<and> px img p = (0, 124, 186, 255))
           \<and> (\<exists>q. in_canvas img q \<and> px img q = (255, 255, 255, 255))"
proof -
  note pos = four_sizes_positive [OF assms(5)]
  from render_pixels [OF pos assms(1-4)] obtain img
    where r: "render L sz = Inr img" and d: "dims img = (sz, sz)"
      and fill: "\<forall>p. in_box p 0 0 (sz - 1) (sz - 1)
                    \<and> deep_inside p (sz div 8) (sz div 8) (sz - sz div 8) (sz - sz div 8) 2
                    \<and> (\<forall>op \<in> set (horizontal_lines sz @ vertical_lines sz). \<not> frame op p)
                  \<longrightarrow> px img p = (0, 124, 186, 255)"
      and white: "px img (sz div 2 - sz div 8 + sz div 4, sz div 2 - sz div 6) = (255, 255, 255, 255)"
    by blast
  note c = fill_pixel_clear [OF assms(5)]
  from c fill have 1: "px img (sz div 2, sz div 2 - sz div 6 div 2) = (0, 124, 186, 255)"
    by blast
  from c d have 2: "in_canvas img (sz div 2, sz div 2 - sz div 6 div 2)"
    by (simp add: in_canvas_def)
  note g = geometry [OF pos]
  have "in_box (sz div 2 - sz div 8 + sz div 4, sz div 2 - sz div 6) 0 0 (sz - 1) (sz - 1)"
    using g(11) g(12) g(4) g(5) by (simp add: in_box_def)
  with d have 3: "in_canvas img (sz div 2 - sz div 8 + sz div 4, sz div 2 - sz div 6)"
    by (simp add: in_canvas_def)
  from r 1 2 3 white show ?thesis by blast
qed

theorem fill_and_white_pixels_witness:
  "\<exists>img. render box_pil 16 = Inr img
     \<and> (\<exists>p. in_canvas img p \<and> px img p = (0, 124, 186, 255))
     \<and> (\<exists>q. in_canvas img q \<and> px img q = (255, 255, 255, 255))"
proof -
  have "(16::int) \<in> {16, 32, 48, 128}" by simp
  then show ?thesis
    by (rule fill_and_white_pixels [OF box_pil_new box_pil_total box_pil_local box_pil_cover])
qed

section \<open>Calls that stay on the canvas\<close>

lemma within_line:
  "0 \<le> xa \<Longrightarrow> xa < sz \<Longrightarrow> 0 \<le> ya \<Longrightarrow> ya < sz \<Longrightarrow> 0 \<le> xb \<Longrightarrow> xb < sz \<Longrightarrow> 0 \<le> yb \<Longrightarrow> yb < sz
   \<Longrightarrow> within_canvas sz (Line [xa, ya, xb, yb] fill w)"
  by (simp add: within_canvas_def)

lemma within_ellipse:
  "0 \<le> m \<Longrightarrow> m \<le> sz \<Longrightarrow> within_canvas sz (Ellipse [m, m, sz - m, sz - m] fill outline w)"
  by (simp add: within_canvas_def)

lemma margin_bounds:
  fixes sz :: int
  assumes "0 < sz"
  shows "0 \<le> sz div 8" and "sz div 8 \<le> sz"
proof -
  from div_bounds [of 8 sz] have "8 * (sz div 8) \<le> sz" "sz < 8 * (sz div 8) + 8" by simp_all
  with assms show "0 \<le> sz div 8" and "sz div 8 \<le> sz" by linarith+
qed

lemma drawing_within:
  assumes "0 < sz"
  shows "\<forall>op \<in> set (drawing sz). within_canvas sz op"
proof -
  note g = geometry [OF assms] margin_bounds [OF assms]
  have mid: "sz div 2 - sz div 6 + sz div 6 = sz div 2" by simp
  show ?thesis
    unfolding drawing_def background_circle_eq horizontal_lines_eq vertical_lines_eq
      list.set append.simps ball_simps mid
    by (intro conjI within_ellipse within_line g TrueI)
qed

lemma draws_succeed:
  assumes loc: "pil_local L" and tot: "draws_on_canvas L"
  shows "\<forall>op \<in> set ops. well_formed op \<and> within_canvas sz op \<Longrightarrow> dims img = (sz, sz)
         \<Longrightarrow> \<exists>img'. for_each (draw L) ops img = Inr img'"
proof (induction ops arbitrary: img)
  case Nil
  then show ?case by simp
next
  case (Cons a ops)
  from Cons.prems have "well_formed a" and "on_canvas img a"
    by (simp_all add: on_canvas_def)
  with tot obtain img1 where a: "draw L a img = Inr img1"
    unfolding draws_on_canvas_def by blast
  with loc have "dims img1 = dims img"
    unfolding pil_local_def by blast
  with Cons.prems have "dims img1 = (sz, sz)" by simp
  moreover from Cons.prems have "\<forall>op \<in> set ops. well_formed op \<and> within_canvas sz op"
    by simp
  ultimately have "\<exists>img'. for_each (draw L) ops img1 = Inr img'"
    by (rule Cons.IH [rotated])
  with a show ?case by simp
qed

lemma render_on_canvas:
  assumes pos: "0 < sz" and new: "new_gives_canvas L sz"
    and loc: "pil_local L" and tot: "draws_on_canvas L"
  shows "\<exists>img. render L sz = Inr img \<and> mode img = ''RGBA'' \<and> dims img = (sz, sz)"
proof -
  from new obtain img0 where n: "Image_new L ''RGBA'' (sz, sz) (0, 0, 0, 0) = Inr img0"
    and m0: "mode img0 = ''RGBA''" and d0: "dims img0 = (sz, sz)"
    unfolding new_gives_canvas_def by blast
  have "\<forall>op \<in> set (drawing sz). well_formed op \<and> within_canvas sz op"
    using drawing_ok [OF pos] drawing_within [OF pos] by blast
  from draws_succeed [OF loc tot this d0] obtain img
    where f: "for_each (draw L) (drawing sz) img0 = Inr img" by blast
  from draws_local [OF loc f] m0 d0 have "mode img = ''RGBA''" "dims img = (sz, sz)"
    by simp_all
  with n f show ?thesis by (simp add: render_def)
qed

lemma pil_new_gives_canvas: "pil_new L \<Longrightarrow> 0 < sz \<Longrightarrow> new_gives_canvas L sz"
  unfolding pil_new_def new_gives_canvas_def by blast

lemma pil_total_on_canvas: "pil_total L \<Longrightarrow> draws_on_canvas L"
  unfolding pil_total_def draws_on_canvas_def by blast

lemma c_int_pil_draw: "draw c_int_pil op img = draw box_pil op img"
  by (cases op) (simp_all add: c_int_pil_def)

lemma c_int_pil_local: "pil_local c_int_pil"
  using box_pil_local unfolding pil_local_def c_int_pil_draw .

lemma c_int_pil_draws: "draws_on_canvas c_int_pil"
  using pil_total_on_canvas [OF box_pil_total] unfolding draws_on_canvas_def c_int_pil_draw .

lemma c_int_pil_new:
  "0 \<le> sz \<Longrightarrow> sz < 2147483648 \<Longrightarrow> new_gives_canvas c_int_pil sz"
  by (simp add: new_gives_canvas_def c_int_pil_def)

text \<open>
  C7, as stated: every positive integer is a valid size, so the drawing phase succeeds
  at each. With a library that hands the size to C code as 32-bit integers, the positive
  size 2147483648 is refused by \<^verbatim>\<open>Image.new\<close> and rendering ends with that
  exception.
\<close>

theorem size_2_to_31_is_refused:
  "(0::int) < 2147483648
   \<and> render c_int_pil 2147483648
       = Inl (OverflowError ''Python int too large to convert to C int'')"
  by (simp add: render_def c_int_pil_def)

text \<open>
  C7, amended: for every positive size the coordinates the script computes are valid.
  The bounding box of the ellipse is well formed (\<open>margin \<le> size - margin\<close>), every
  drawing call has four coordinates, both end points of every line lie on the canvas
  (coordinates from 0 to size - 1), and no coordinate of any call lies below 0 or beyond
  the size. So the drawing phase returns an image whenever \<^verbatim>\<open>Image.new\<close> returns
  the canvas of that size, drawing keeps the size of the canvas, and well-formed calls
  that stay on the canvas raise nothing. Which sizes the library can allocate is the
  library's matter: not every positive integer is one.
\<close>

theorem drawing_calls_valid:
  assumes "0 < sz"
  shows "sz div 8 \<le> sz - sz div 8
         \<and> (\<forall>op \<in> set (drawing sz).
               well_formed op \<and> endpoints_in_canvas sz op \<and> within_canvas sz op)
         \<and> (new_gives_canvas L sz \<and> pil_local L \<and> draws_on_canvas L
               \<longrightarrow> (\<exists>img. render L sz = Inr img))"
proof (intro conjI impI)
  show "sz div 8 \<le> sz - sz div 8" by (rule geometry(1) [OF assms])
  show "\<forall>op \<in> set (drawing sz).
          well_formed op \<and> endpoints_in_canvas sz op \<and> within_canvas sz op"
    using drawing_ok [OF assms] drawing_within [OF assms] by blast
  assume "new_gives_canvas L sz \<and> pil_local L \<and> draws_on_canvas L"
  then have "\<exists>img. render L sz = Inr img \<and> mode img = ''RGBA'' \<and> dims img = (sz, sz)"
    using render_on_canvas [OF assms] by blast
  then show "\<exists>img. render L sz = Inr img" by blast
qed

theorem drawing_calls_valid_witness:
  "(7::int) div 8 \<le> 7 - 7 div 8 \<and> (\<exists>img. render c_int_pil 7 = Inr img)"
proof -
  have "(0::int) < 7" by simp
  note t = drawing_calls_valid [OF this, of c_int_pil]
  have "new_gives_canvas c_int_pil 7 \<and> pil_local c_int_pil \<and> draws_on_canvas c_int_pil"
    using c_int_pil_new [of 7] c_int_pil_local c_int_pil_draws by simp
  with t show ?thesis by blast
qed

section \<open>What \<^verbatim>\<open>main\<close> writes\<close>

lemma create_icon_writes:
  assumes r: "render L sz = Inr img" and sv: "pil_save L enc" and wr: "writable L filename"
  shows "create_icon L sz filename w =
           Inr \<lparr>files = (files w)(filename \<mapsto> enc ''PNG'' img),
                stdout = stdout w @
                  [''Created '' @ filename @ '' ('' @ str sz @ ''x'' @ str sz @ '')'']\<rparr>"
proof -
  from wr obtain fs where s: "save L img filename ''PNG'' (files w) = Inr fs"
    unfolding writable_def by blast
  with sv have "fs = (files w)(filename \<mapsto> enc ''PNG'' img)"
    unfolding pil_save_def by blast
  with r s show ?thesis by (simp add: create_icon_def)
qed

lemma str_of_sizes:
  "str 16 = ''16''" "str 32 = ''32''" "str 48 = ''48''" "str 128 = ''128''"
  by (simp_all add: str_def)

lemma box_pil_writable: "filename \<noteq> [] \<Longrightarrow> writable box_pil filename"
  by (simp add: writable_def box_pil_def)

text \<open>
  C1: \<^verbatim>\<open>main\<close> calls \<^verbatim>\<open>create_icon\<close> with 16 and \<^verbatim>\<open>icon16.png\<close>, 32 and
  \<^verbatim>\<open>icon32.png\<close>, 48 and \<^verbatim>\<open>icon48.png\<close>, 128 and \<^verbatim>\<open>icon128.png\<close>, in
  this order, and returns; none of the names has a directory part, so each file goes to
  the current working directory; for each of the four sizes the file of that name then
  holds the PNG encoding of the image rendered at that size, whose mode is RGBA and whose
  dimensions are (size, size); and the four confirmation lines are printed. The library
  is asked, at these four sizes, to return the canvas, to keep mode and size when it
  draws, to raise nothing on well-formed calls that stay on the canvas, to store on
  saving what its encoder computes, and to find the four paths writable.
\<close>

theorem main_writes_four_icons:
  assumes new: "\<forall>sz \<in> {16, 32, 48, 128}. new_gives_canvas L sz"
    and loc: "pil_local L" and tot: "draws_on_canvas L"
    and sv: "pil_save L enc"
    and wr: "\<forall>filename \<in> {''icon16.png'', ''icon32.png'', ''icon48.png'', ''icon128.png''}.
               writable L filename"
  shows "main L w =
           for_each (\<lambda>(sz, filename). create_icon L sz filename)
             [(16, ''icon16.png''), (32, ''icon32.png''), (48, ''icon48.png''),
              (128, ''icon128.png'')] w
         \<and> (\<exists>w'. main L w = Inr w'
               \<and> (\<forall>(sz, filename) \<in> {(16, ''icon16.png''), (32, ''icon32.png''),
                                       (48, ''icon48.png''), (128, ''icon128.png'')}.
                     CHR ''/'' \<notin> set filename
                     \<and> (\<exists>img. render L sz = Inr img
                           \<and> mode img = ''RGBA'' \<and> dims img = (sz, sz)
                           \<and> files w' filename = Some (enc ''PNG'' img)))
               \<and> stdout w' = stdout w @
                   [''Created icon16.png (16x16)'', ''Created icon32.png (32x32)'',
                    ''Created icon48.png (48x48)'', ''Created icon128.png (128x128)''])"
proof -
  have r: "\<exists>img. render L sz = Inr img \<and> mode img = ''RGBA'' \<and> dims img = (sz, sz)"
    if "sz \<in> {16, 32, 48, 128}" for sz
    using render_on_canvas [OF four_sizes_positive [OF that] _ loc tot] new that by blast
  from r [of 16] obtain i16 where i16: "render L 16 = Inr i16"
    "mode i16 = ''RGBA''" "dims i16 = (16, 16)" by auto
  from r [of 32] obtain i32 where i32: "render L 32 = Inr i32"
    "mode i32 = ''RGBA''" "dims i32 = (32, 32)" by auto
  from r [of 48] obtain i48 where i48: "render L 48 = Inr i48"
    "mode i48 = ''RGBA''" "dims i48 = (48, 48)" by auto
  from r [of 128] obtain i128 where i128: "render L 128 = Inr i128"
    "mode i128 = ''RGBA''" "dims i128 = (128, 128)" by auto
  from wr have w16: "writable L ''icon16.png''" and w32: "writable L ''icon32.png''"
    and w48: "writable L ''icon48.png''" and w128: "writable L ''icon128.png''"
    by simp_all
  note c = create_icon_writes [OF i16(1) sv w16] create_icon_writes [OF i32(1) sv w32]
    create_icon_writes [OF i48(1) sv w48] create_icon_writes [OF i128(1) sv w128]
  define w' where "w' =
    \<lparr>files = (files w)(''icon16.png'' \<mapsto> enc ''PNG'' i16, ''icon32.png'' \<mapsto> enc ''PNG'' i32,
        ''icon48.png'' \<mapsto> enc ''PNG'' i48, ''icon128.png'' \<mapsto> enc ''PNG'' i128),
     stdout = stdout w @
       [''Created icon16.png (16x16)'', ''Created icon32.png (32x32)'',
        ''Created icon48.png (48x48)'', ''Created icon128.png (128x128)'']\<rparr>"
  have m: "main L w = Inr w'"
    unfolding main_unfolded w'_def
    by (simp add: c str_of_sizes)
  have f: "files w' ''icon16.png'' = Some (enc ''PNG'' i16)"
    "files w' ''icon32.png'' = Some (enc ''PNG'' i32)"
    "files w' ''icon48.png'' = Some (enc ''PNG'' i48)"
    "files w' ''icon128.png'' = Some (enc ''PNG'' i128)"
    by (simp_all add: w'_def)
  have o: "stdout w' = stdout w @
       [''Created icon16.png (16x16)'', ''Created icon32.png (32x32)'',
        ''Created icon48.png (48x48)'', ''Created icon128.png (128x128)'']"
    by (simp add: w'_def)
  have each: "\<forall>(sz, filename) \<in> {(16, ''icon16.png''), (32, ''icon32.png''),
                                       (48, ''icon48.png''), (128, ''icon128.png'')}.
                     CHR ''/'' \<notin> set filename
                     \<and> (\<exists>img. render L sz = Inr img
                           \<and> mode img = ''RGBA'' \<and> dims img = (sz, sz)
                           \<and> files w' filename = Some (enc ''PNG'' img))"
    using i16 i32 i48 i128 f by simp
  from m each o have "\<exists>w'. main L w = Inr w'
               \<and> (\<forall>(sz, filename) \<in> {(16, ''icon16.png''), (32, ''icon32.png''),
                                       (48, ''icon48.png''), (128, ''icon128.png'')}.
                     CHR ''/'' \<notin> set filename
                     \<and> (\<exists>img. render L sz = Inr img
                           \<and> mode img = ''RGBA'' \<and> dims img = (sz, sz)
                           \<and> files w' filename = Some (enc ''PNG'' img)))
               \<and> stdout w' = stdout w @
                   [''Created icon16.png (16x16)'', ''Created icon32.png (32x32)'',
                    ''Created icon48.png (48x48)'', ''Created icon128.png (128x128)'']"
    by (intro exI [of _ w'] conjI)
  with main_unfolded [of L w] show ?thesis by (intro conjI)
qed

theorem main_writes_four_icons_witness:
  "\<exists>w' img. main box_pil \<lparr>files = Map.empty, stdout = []\<rparr> = Inr w'
     \<and> render box_pil 16 = Inr img \<and> mode img = ''RGBA'' \<and> dims img = (16, 16)
     \<and> files w' ''icon16.png'' = Some (raw_bytes ''PNG'' img)
     \<and> stdout w' = [''Created icon16.png (16x16)'', ''Created icon32.png (32x32)'',
                     ''Created icon48.png (48x48)'', ''Created icon128.png (128x128)'']"
proof -
  have new: "\<forall>sz \<in> {16, 32, 48, 128}. new_gives_canvas box_pil sz"
    using pil_new_gives_canvas [OF box_pil_new] by simp
  have wr: "\<forall>filename \<in> {''icon16.png'', ''icon32.png'', ''icon48.png'', ''icon128.png''}.
               writable box_pil filename"
    by (simp add: box_pil_writable)
  from conjunct2 [OF main_writes_four_icons [OF new box_pil_local
        pil_total_on_canvas [OF box_pil_total] box_pil_save wr,
        of "\<lparr>files = Map.empty, stdout = []\<rparr>"]]
  obtain w' where m: "main box_pil \<lparr>files = Map.empty, stdout = []\<rparr> = Inr w'"
    and e: "\<forall>(sz, filename) \<in> {(16, ''icon16.png''), (32, ''icon32.png''),
                                       (48, ''icon48.png''), (128, ''icon128.png'')}.
              CHR ''/'' \<notin> set filename
              \<and> (\<exists>img. render box_pil sz = Inr img
                    \<and> mode img = ''RGBA'' \<and> dims img = (sz, sz)
                    \<and> files w' filename = Some (raw_bytes ''PNG'' img))"
    and o: "stdout w' = stdout \<lparr>files = Map.empty, stdout = []\<rparr> @
              [''Created icon16.png (16x16)'', ''Created icon32.png (32x32)'',
               ''Created icon48.png (48x48)'', ''Created icon128.png (128x128)'']"
    by (elim exE conjE)
  from e obtain img where "render box_pil 16 = Inr img" "mode img = ''RGBA''"
    "dims img = (16, 16)" "files w' ''icon16.png'' = Some (raw_bytes ''PNG'' img)"
    by auto
  with m o show ?thesis by (intro exI [of _ w'] exI [of _ img]) simp
qed

section \<open>Exceptions end the run\<close>

lemma for_each_call_fails_iff:
  "for_each_call f xs b s = (Inl e, s') \<longleftrightarrow>
     (\<exists>ys x zs b1 s1. xs = ys @ x # zs \<and> for_each_call f ys b s = (Inr b1, s1)
        \<and> f x b1 s1 = (Inl e, s'))"
proof (induction xs arbitrary: b s)
  case Nil
  then show ?case by simp
next
  case (Cons a xs)
  obtain r t where fa: "f a b s = (r, t)" by (cases "f a b s")
  show ?case
  proof (cases r)
    case (Inl e')
    show ?thesis
    proof
      assume "for_each_call f (a # xs) b s = (Inl e, s')"
      with fa Inl have "f a b s = (Inl e, s')" by simp
      then have "a # xs = [] @ a # xs \<and> for_each_call f [] b s = (Inr b, s)
          \<and> f a b s = (Inl e, s')" by simp
      then show "\<exists>ys x zs b1 s1. a # xs = ys @ x # zs
          \<and> for_each_call f ys b s = (Inr b1, s1) \<and> f x b1 s1 = (Inl e, s')"
        by blast
    next
      assume "\<exists>ys x zs b1 s1. a # xs = ys @ x # zs
          \<and> for_each_call f ys b s = (Inr b1, s1) \<and> f x b1 s1 = (Inl e, s')"
      then obtain ys x zs b1 s1 where h: "a # xs = ys @ x # zs"
        "for_each_call f ys b s = (Inr b1, s1)" "f x b1 s1 = (Inl e, s')"
        by blast
      show "for_each_call f (a # xs) b s = (Inl e, s')"
      proof (cases ys)
        case Nil
        with h fa Inl show ?thesis by simp
      next
        case (Cons c cs)
        with h fa Inl show ?thesis by simp
      qed
    qed
  next
    case (Inr b2)
    have "for_each_call f (a # xs) b s = (Inl e, s') \<longleftrightarrow> for_each_call f xs b2 t = (Inl e, s')"
      using fa Inr by simp
    also have "\<dots> \<longleftrightarrow> (\<exists>ys x zs b1 s1. xs = ys @ x # zs
        \<and> for_each_call f ys b2 t = (Inr b1, s1) \<and> f x b1 s1 = (Inl e, s'))"
      by (rule Cons.IH)
    also have "\<dots> \<longleftrightarrow> (\<exists>ys x zs b1 s1. a # xs = ys @ x # zs
        \<and> for_each_call f ys b s = (Inr b1, s1) \<and> f x b1 s1 = (Inl e, s'))"
    proof
      assume "\<exists>ys x zs b1 s1. xs = ys @ x # zs
        \<and> for_each_call f ys b2 t = (Inr b1, s1) \<and> f x b1 s1 = (Inl e, s')"
      then obtain ys x zs b1 s1 where h: "xs = ys @ x # zs"
        "for_each_call f ys b2 t = (Inr b1, s1)" "f x b1 s1 = (Inl e, s')"
        by blast
      then have "a # xs = (a # ys) @ x # zs \<and> for_each_call f (a # ys) b s = (Inr b1, s1)
          \<and> f x b1 s1 = (Inl e, s')"
        using fa Inr by simp
      then show "\<exists>ys x zs b1 s1. a # xs = ys @ x # zs
          \<and> for_each_call f ys b s = (Inr b1, s1) \<and> f x b1 s1 = (Inl e, s')"
        by blast
    next
      assume "\<exists>ys x zs b1 s1. a # xs = ys @ x # zs
          \<and> for_each_call f ys b s = (Inr b1, s1) \<and> f x b1 s1 = (Inl e, s')"
      then obtain ys x zs b1 s1 where h: "a # xs = ys @ x # zs"
        "for_each_call f ys b s = (Inr b1, s1)" "f x b1 s1 = (Inl e, s')"
        by blast
      show "\<exists>ys x zs b1 s1. xs = ys @ x # zs
        \<and> for_each_call f ys b2 t = (Inr b1, s1) \<and> f x b1 s1 = (Inl e, s')"
      proof (cases ys)
        case Nil
        with h fa Inr show ?thesis by simp
      next
        case (Cons c cs)
        with h fa Inr have "xs = cs @ x # zs \<and> for_each_call f cs b2 t = (Inr b1, s1)
            \<and> f x b1 s1 = (Inl e, s')" by simp
        then show ?thesis by blast
      qed
    qed
    finally show ?thesis .
  qed
qed

lemma for_each_call_unit_fails_iff:
  "for_each_call f xs () s = (Inl e, s') \<longleftrightarrow>
     (\<exists>ys x zs s1. xs = ys @ x # zs \<and> for_each_call f ys () s = (Inr (), s1)
        \<and> f x () s1 = (Inl e, s'))"
  using for_each_call_fails_iff [of f xs "()" s e s'] by simp

lemma render_run_fails_iff:
  "render_run S sz s = (Inl e, s') \<longleftrightarrow>
     (new_call S ''RGBA'' (sz, sz) (0, 0, 0, 0) s = (Inl e, s')
      \<or> (\<exists>img0 s0 before op after img1 s1.
            new_call S ''RGBA'' (sz, sz) (0, 0, 0, 0) s = (Inr img0, s0)
            \<and> drawing sz = before @ op # after
            \<and> for_each_call (draw_call S) before img0 s0 = (Inr img1, s1)
            \<and> draw_call S op img1 s1 = (Inl e, s')))"
proof -
  obtain r t where n: "new_call S ''RGBA'' (sz, sz) (0, 0, 0, 0) s = (r, t)"
    by (cases "new_call S ''RGBA'' (sz, sz) (0, 0, 0, 0) s")
  show ?thesis
  proof (cases r)
    case (Inl e')
    with n show ?thesis by (simp add: render_run_def then_call_def)
  next
    case (Inr img0)
    with n show ?thesis
      by (simp add: render_run_def then_call_def
          for_each_call_fails_iff [of "draw_call S" "drawing sz" img0 t e s'])
  qed
qed

lemma create_icon_run_fails_iff:
  "create_icon_run S sz filename s = (Inl e, s') \<longleftrightarrow>
     (render_run S sz s = (Inl e, s')
      \<or> (\<exists>img s1. render_run S sz s = (Inr img, s1)
            \<and> save_call S img filename ''PNG'' s1 = (Inl e, s'))
      \<or> (\<exists>img s1 s2. render_run S sz s = (Inr img, s1)
            \<and> save_call S img filename ''PNG'' s1 = (Inr (), s2)
            \<and> print_call S (''Created '' @ filename @ '' ('' @ str sz @ ''x'' @ str sz @ '')'') s2
                = (Inl e, s')))"
  by (auto simp add: create_icon_run_def then_call_def split: prod.splits sum.splits)

text \<open>
  C8: nothing is caught. In a world with state, rendering ends with an exception exactly
  when \<^verbatim>\<open>Image.new\<close> raised it, or a drawing call raised it after the calls before
  it returned; \<^verbatim>\<open>create_icon\<close> ends with an exception exactly when rendering,
  \<^verbatim>\<open>img.save\<close> or \<^verbatim>\<open>print\<close> raised it; \<^verbatim>\<open>main\<close> ends with an exception
  exactly when one of its \<^verbatim>\<open>create_icon\<close> calls did after the earlier ones
  returned. In each case the exception is the one raised, whatever its class, and the
  state the run ends in is the state the raising call left: no call follows it, neither
  a second attempt nor the rest of the script.
\<close>

theorem errors_end_the_run:
  "(render_run S sz s = (Inl e, s') \<longleftrightarrow>
     (new_call S ''RGBA'' (sz, sz) (0, 0, 0, 0) s = (Inl e, s')
      \<or> (\<exists>img0 s0 before op after img1 s1.
            new_call S ''RGBA'' (sz, sz) (0, 0, 0, 0) s = (Inr img0, s0)
            \<and> drawing sz = before @ op # after
            \<and> for_each_call (draw_call S) before img0 s0 = (Inr img1, s1)
            \<and> draw_call S op img1 s1 = (Inl e, s'))))
   \<and> (create_icon_run S sz filename s = (Inl e, s') \<longleftrightarrow>
     (render_run S sz s = (Inl e, s')
      \<or> (\<exists>img s1. render_run S sz s = (Inr img, s1)
            \<and> save_call S img filename ''PNG'' s1 = (Inl e, s'))
      \<or> (\<exists>img s1 s2. render_run S sz s = (Inr img, s1)
            \<and> save_call S img filename ''PNG'' s1 = (Inr (), s2)
            \<and> print_call S (''Created '' @ filename @ '' ('' @ str sz @ ''x'' @ str sz @ '')'') s2
                = (Inl e, s'))))
   \<and> (main_run S s = (Inl e, s') \<longleftrightarrow>
     (\<exists>before sz after s1.
         [16, 32, 48, 128] = before @ sz # after
         \<and> for_each_call (\<lambda>sz u. create_icon_run S sz (''icon'' @ str sz @ ''.png''))
               before () s = (Inr (), s1)
         \<and> create_icon_run S sz (''icon'' @ str sz @ ''.png'') s1 = (Inl e, s')))"
proof (intro conjI)
  show "render_run S sz s = (Inl e, s') \<longleftrightarrow>
     (new_call S ''RGBA'' (sz, sz) (0, 0, 0, 0) s = (Inl e, s')
      \<or> (\<exists>img0 s0 before op after img1 s1.
            new_call S ''RGBA'' (sz, sz) (0, 0, 0, 0) s = (Inr img0, s0)
            \<and> drawing sz = before @ op # after
            \<and> for_each_call (draw_call S) before img0 s0 = (Inr img1, s1)
            \<and> draw_call S op img1 s1 = (Inl e, s')))"
    by (rule render_run_fails_iff)
  show "create_icon_run S sz filename s = (Inl e, s') \<longleftrightarrow>
     (render_run S sz s = (Inl e, s')
      \<or> (\<exists>img s1. render_run S sz s = (Inr img, s1)
            \<and> save_call S img filename ''PNG'' s1 = (Inl e, s'))
      \<or> (\<exists>img s1 s2. render_run S sz s = (Inr img, s1)
            \<and> save_call S img filename ''PNG'' s1 = (Inr (), s2)
            \<and> print_call S (''Created '' @ filename @ '' ('' @ str sz @ ''x'' @ str sz @ '')'') s2
                = (Inl e, s')))"
    by (rule create_icon_run_fails_iff)
  show "main_run S s = (Inl e, s') \<longleftrightarrow>
     (\<exists>before sz after s1.
         [16, 32, 48, 128] = before @ sz # after
         \<and> for_each_call (\<lambda>sz u. create_icon_run S sz (''icon'' @ str sz @ ''.png''))
               before () s = (Inr (), s1)
         \<and> create_icon_run S sz (''icon'' @ str sz @ ''.png'') s1 = (Inl e, s'))"
    unfolding main_run_def
    by (rule for_each_call_unit_fails_iff)
qed

lemma logging_calls:
  "new_call (logging L) m d c (w, cs) = (Image_new L m d c, (w, cs @ [New_call m d c]))"
  "draw_call (logging L) op img (w, cs) = (draw L op img, (w, cs @ [Draw_call op]))"
  "save_call (logging L) img fn fmt (w, cs) =
     (case save L img fn fmt (files w) of
        Inl e \<Rightarrow> (Inl e, (w, cs @ [Save_call fn fmt]))
      | Inr fs \<Rightarrow> (Inr (), (w\<lparr>files := fs\<rparr>, cs @ [Save_call fn fmt])))"
  "print_call (logging L) msg (w, cs) =
     (Inr (), (w\<lparr>stdout := stdout w @ [msg]\<rparr>, cs @ [Print_call msg]))"
  by (cases op; simp add: logging_def)+

lemma draws_logged:
  "for_each (draw L) ops img = Inr img'
   \<Longrightarrow> for_each_call (draw_call (logging L)) ops img (w, cs)
         = (Inr img', (w, cs @ map Draw_call ops))"
proof (induction ops arbitrary: img cs)
  case Nil
  then show ?case by simp
next
  case (Cons a ops)
  from Cons.prems obtain img1 where a: "draw L a img = Inr img1"
    and r: "for_each (draw L) ops img1 = Inr img'"
    by (auto split: sum.splits)
  from Cons.IH [OF r, of "cs @ [Draw_call a]"] a show ?case
    by (simp add: logging_calls)
qed

lemma render_logged:
  assumes "render L sz = Inr img"
  shows "render_run (logging L) sz (w, cs)
         = (Inr img, (w, cs @ New_call ''RGBA'' (sz, sz) (0, 0, 0, 0)
                              # map Draw_call (drawing sz)))"
proof -
  from assms obtain img0 where n: "Image_new L ''RGBA'' (sz, sz) (0, 0, 0, 0) = Inr img0"
    and f: "for_each (draw L) (drawing sz) img0 = Inr img"
    by (auto simp add: render_def split: sum.splits)
  from draws_logged [OF f, of w "cs @ [New_call ''RGBA'' (sz, sz) (0, 0, 0, 0)]"] n
  show ?thesis
    by (simp add: render_run_def then_call_def logging_calls)
qed

lemma create_icon_logged:
  assumes "render L sz = Inr img"
  shows "create_icon_run (logging L) sz filename (w, cs) =
     (case save L img filename ''PNG'' (files w) of
        Inl e \<Rightarrow>
          (Inl e, (w, cs @ New_call ''RGBA'' (sz, sz) (0, 0, 0, 0) # map Draw_call (drawing sz)
                         @ [Save_call filename ''PNG'']))
      | Inr fs \<Rightarrow>
          (Inr (),
           (\<lparr>files = fs,
             stdout = stdout w @
               [''Created '' @ filename @ '' ('' @ str sz @ ''x'' @ str sz @ '')'']\<rparr>,
            cs @ New_call ''RGBA'' (sz, sz) (0, 0, 0, 0) # map Draw_call (drawing sz)
               @ [Save_call filename ''PNG'',
                  Print_call (''Created '' @ filename @ '' ('' @ str sz @ ''x'' @ str sz @ '')'')])))"
  by (simp add: create_icon_run_def then_call_def render_logged [OF assms] logging_calls
      split: sum.splits)

lemma readonly_pil_draw: "draw (readonly_pil bad) op img = draw box_pil op img"
  by (cases op) (simp_all add: readonly_pil_def)

lemma readonly_pil_render: "render (readonly_pil bad) sz = render box_pil sz"
proof -
  have "Image_new (readonly_pil bad) = Image_new box_pil"
    by (simp add: readonly_pil_def)
  moreover have "draw (readonly_pil bad) = draw box_pil"
    by (intro ext) (rule readonly_pil_draw)
  ultimately show ?thesis
    unfolding render_def by (simp only:)
qed

lemma readonly_pil_save:
  "save (readonly_pil bad) img fn fmt fs =
     (if fn = bad then Inl (OSError ''Permission denied'')
      else if fn = [] then Inl (OSError ''No such file or directory'')
      else Inr (fs(fn \<mapsto> raw_bytes fmt img)))"
  by (simp add: readonly_pil_def box_pil_def)

text \<open>
  An instance: saving to \<^verbatim>\<open>icon32.png\<close> is refused. The run ends with that
  \<^verbatim>\<open>OSError\<close>; only \<^verbatim>\<open>icon16.png\<close> was written and confirmed; the calls made
  are those for size 16, then \<^verbatim>\<open>Image.new\<close> and the six drawing calls for size
  32, and last the refused save. Nothing was called for the sizes 48 and 128.
\<close>

theorem errors_end_the_run_witness:
  "\<exists>w' cs. main_run (logging (readonly_pil ''icon32.png''))
               (\<lparr>files = Map.empty, stdout = []\<rparr>, [])
             = (Inl (OSError ''Permission denied''), (w', cs))
     \<and> stdout w' = [''Created icon16.png (16x16)'']
     \<and> dom (files w') = {''icon16.png''}
     \<and> cs = New_call ''RGBA'' (16, 16) (0, 0, 0, 0) # map Draw_call (drawing 16)
            @ [Save_call ''icon16.png'' ''PNG'', Print_call ''Created icon16.png (16x16)'',
               New_call ''RGBA'' (32, 32) (0, 0, 0, 0)]
            @ map Draw_call (drawing 32) @ [Save_call ''icon32.png'' ''PNG'']"
proof -
  define S where "S = logging (readonly_pil ''icon32.png'')"
  define w0 :: world where "w0 = \<lparr>files = Map.empty, stdout = []\<rparr>"
  from render_returns [OF _ box_pil_new box_pil_total, of 16]
  obtain i16 where "render box_pil 16 = Inr i16" by auto
  then have r16: "render (readonly_pil ''icon32.png'') 16 = Inr i16"
    by (simp add: readonly_pil_render)
  from render_returns [OF _ box_pil_new box_pil_total, of 32]
  obtain i32 where "render box_pil 32 = Inr i32" by auto
  then have r32: "render (readonly_pil ''icon32.png'') 32 = Inr i32"
    by (simp add: readonly_pil_render)
  define w1 :: world where "w1 =
    \<lparr>files = [''icon16.png'' \<mapsto> raw_bytes ''PNG'' i16],
     stdout = [''Created icon16.png (16x16)'']\<rparr>"
  define c1 where "c1 = New_call ''RGBA'' (16, 16) (0, 0, 0, 0) # map Draw_call (drawing 16)
      @ [Save_call ''icon16.png'' ''PNG'', Print_call ''Created icon16.png (16x16)'']"
  define c2 where "c2 = c1 @ New_call ''RGBA'' (32, 32) (0, 0, 0, 0) # map Draw_call (drawing 32)
      @ [Save_call ''icon32.png'' ''PNG'']"
  have first: "create_icon_run S 16 (''icon'' @ str 16 @ ''.png'') (w0, []) = (Inr (), (w1, c1))"
    unfolding S_def
    by (simp add: create_icon_logged [OF r16] str_of_sizes readonly_pil_save
        w0_def w1_def c1_def)
  have second: "create_icon_run S 32 (''icon'' @ str 32 @ ''.png'') (w1, c1)
      = (Inl (OSError ''Permission denied''), (w1, c2))"
    unfolding S_def
    by (simp add: create_icon_logged [OF r32] str_of_sizes readonly_pil_save c2_def)
  have before: "for_each_call (\<lambda>sz u. create_icon_run S sz (''icon'' @ str sz @ ''.png''))
      [16] () (w0, []) = (Inr (), (w1, c1))"
    using first by simp
  have split: "[16, 32, 48, 128] = [16] @ 32 # [48, 128 :: int]" by simp
  from iffD2 [OF conjunct2 [OF conjunct2 [OF errors_end_the_run
          [of S 16 "(w0, [])" "OSError ''Permission denied''" "(w1, c2)" "[]"]]]]
    split before second
  have m: "main_run S (w0, []) = (Inl (OSError ''Permission denied''), (w1, c2))"
    by blast
  have "stdout w1 = [''Created icon16.png (16x16)'']" "dom (files w1) = {''icon16.png''}"
    by (simp_all add: w1_def)
  moreover have "c2 = New_call ''RGBA'' (16, 16) (0, 0, 0, 0) # map Draw_call (drawing 16)
            @ [Save_call ''icon16.png'' ''PNG'', Print_call ''Created icon16.png (16x16)'',
               New_call ''RGBA'' (32, 32) (0, 0, 0, 0)]
            @ map Draw_call (drawing 32) @ [Save_call ''icon32.png'' ''PNG'']"
    by (simp add: c2_def c1_def)
  ultimately show ?thesis
    using m unfolding S_def w0_def
    by (intro exI [of _ w1] exI [of _ c2] conjI)
qed

text \<open>
  The record of calls tells a second attempt from none: running \<^verbatim>\<open>create_icon\<close>
  again from the state a failed run left gives a different state.
\<close>

lemma second_attempt_is_visible:
  "\<exists>e s1. create_icon_run (logging (readonly_pil ''icon16.png'')) 16 ''icon16.png''
             (\<lparr>files = Map.empty, stdout = []\<rparr>, []) = (Inl e, s1)
     \<and> create_icon_run (logging (readonly_pil ''icon16.png'')) 16 ''icon16.png'' s1
         \<noteq> (Inl e, s1)"
proof -
  from render_returns [OF _ box_pil_new box_pil_total, of 16]
  obtain i16 where "render box_pil 16 = Inr i16" by auto
  then have r: "render (readonly_pil ''icon16.png'') 16 = Inr i16"
    by (simp add: readonly_pil_render)
  define w0 :: world where "w0 = \<lparr>files = Map.empty, stdout = []\<rparr>"
  define c1 where "c1 = New_call ''RGBA'' (16, 16) (0, 0, 0, 0) # map Draw_call (drawing 16)
      @ [Save_call ''icon16.png'' ''PNG'']"
  have 1: "create_icon_run (logging (readonly_pil ''icon16.png'')) 16 ''icon16.png'' (w0, [])
      = (Inl (OSError ''Permission denied''), (w0, c1))"
    by (simp add: create_icon_logged [OF r] readonly_pil_save c1_def)
  have 2: "create_icon_run (logging (readonly_pil ''icon16.png'')) 16 ''icon16.png'' (w0, c1)
      = (Inl (OSError ''Permission denied''), (w0, c1 @ c1))"
    by (simp add: create_icon_logged [OF r] readonly_pil_save c1_def)
  have "c1 @ c1 \<noteq> c1" by (simp add: c1_def)
  with 2 have "create_icon_run (logging (readonly_pil ''icon16.png'')) 16 ''icon16.png'' (w0, c1)
      \<noteq> (Inl (OSError ''Permission denied''), (w0, c1))"
    by simp
  with 1 show ?thesis unfolding w0_def by blast
qed

text \<open>
  With the library's calls as functions of their arguments, the run in the recording
  state and the functions \<open>create_icon\<close> and \<open>main\<close> above agree.
\<close>

lemma draws_agree:
  "\<exists>cs'. for_each_call (draw_call (logging L)) ops img (w, cs)
           = (for_each (draw L) ops img, (w, cs'))"
proof (induction ops arbitrary: img cs)
  case Nil
  then show ?case by simp
next
  case (Cons a ops)
  show ?case
  proof (cases "draw L a img")
    case (Inl e)
    then show ?thesis by (simp add: logging_calls)
  next
    case (Inr img1)
    with Cons.IH [of img1 "cs @ [Draw_call a]"] show ?thesis
      by (simp add: logging_calls)
  qed
qed

lemma render_agrees:
  "\<exists>cs'. render_run (logging L) sz (w, cs) = (render L sz, (w, cs'))"
proof (cases "Image_new L ''RGBA'' (sz, sz) (0, 0, 0, 0)")
  case (Inl e)
  then show ?thesis by (simp add: render_run_def render_def then_call_def logging_calls)
next
  case (Inr img0)
  with draws_agree [of L "drawing sz" img0 w "cs @ [New_call ''RGBA'' (sz, sz) (0, 0, 0, 0)]"]
  show ?thesis by (auto simp add: render_run_def render_def then_call_def logging_calls)
qed

lemma create_icon_agrees:
  "outcome (create_icon_run (logging L) sz filename (w, cs)) = create_icon L sz filename w"
proof -
  from render_agrees [of L sz w cs] obtain cs'
    where r: "render_run (logging L) sz (w, cs) = (render L sz, (w, cs'))" by blast
  show ?thesis
    by (simp add: create_icon_run_def create_icon_def then_call_def r logging_calls outcome_def
        split: sum.splits)
qed

lemma main_agrees_aux:
  "outcome (for_each_call (\<lambda>sz u. create_icon_run (logging L) sz (name sz)) xs () (w, cs))
   = for_each (\<lambda>sz. create_icon L sz (name sz)) xs w"
proof (induction xs arbitrary: w cs)
  case Nil
  then show ?case by (simp add: outcome_def)
next
  case (Cons a xs)
  obtain r w1 cs1 where c: "create_icon_run (logging L) a (name a) (w, cs) = (r, (w1, cs1))"
    by (metis surj_pair)
  from create_icon_agrees [of L a "name a" w cs] c
  have o: "create_icon L a (name a) w = outcome (r, (w1, cs1))" by simp
  show ?case
  proof (cases r)
    case (Inl e)
    with c o show ?thesis by (simp add: outcome_def)
  next
    case (Inr u)
    with c o Cons.IH [of w1 cs1] show ?thesis by (simp add: outcome_def)
  qed
qed

lemma main_agrees: "outcome (main_run (logging L) (w, cs)) = main L w"
  unfolding main_run_def main_def by (rule main_agrees_aux)

end
